theory Spec2Isabelle
  imports Complex_Main "HOL-Library.Char_ord" "HOL-Library.List_Lexorder"
begin

section \<open>Python values\<close>

text \<open>
  The program is \<^verbatim>\<open>PROJECT AI/task7.py\<close>: a Tk form that validates seven measurements,
  asks a trained classifier for a crop, and renders a static cultivation guide and a chart.

  A \<^verbatim>\<open>str\<close> is a \<^typ>\<open>string\<close>, the UTF-8 bytes of its characters: an ASCII
  character is one \<^typ>\<open>char\<close>, and the characters outside ASCII that the source's
  literals contain are written as their bytes.

  A value returned by \<^verbatim>\<open>float(...)\<close> is a \<^typ>\<open>real\<close> (every finite double is one), an
  infinity or NaN. Comparing it with an \<^verbatim>\<open>int\<close> is exact in Python, so the order of the
  reals is the order of the program.
\<close>

datatype pyfloat = Fin real | PosInf | NegInf | NaN

datatype pyerr = KeyError string | ValueError string

fun int_le_float :: "int \<Rightarrow> pyfloat \<Rightarrow> bool" where
  "int_le_float i (Fin x) = (real_of_int i \<le> x)"
| "int_le_float i PosInf = True"
| "int_le_float i NegInf = False"
| "int_le_float i NaN = False"

fun float_le_int :: "pyfloat \<Rightarrow> int \<Rightarrow> bool" where
  "float_le_int (Fin x) i = (x \<le> real_of_int i)"
| "float_le_int PosInf i = False"
| "float_le_int NegInf i = True"
| "float_le_int NaN i = False"

text \<open>The chained comparison \<^verbatim>\<open>low <= x <= high\<close>.\<close>

definition between :: "int \<Rightarrow> pyfloat \<Rightarrow> int \<Rightarrow> bool" where
  "between low x high = (int_le_float low x \<and> float_le_int x high)"

subsection \<open>Formatting an int\<close>

definition digit_char :: "nat \<Rightarrow> char" where
  "digit_char d = ''0123456789'' ! (d mod 10)"

fun str_nat :: "nat \<Rightarrow> string" where
  "str_nat n = (if n < 10 then [digit_char n] else str_nat (n div 10) @ [digit_char (n mod 10)])"

declare str_nat.simps [simp del]

text \<open>\<^verbatim>\<open>str(i)\<close>, which is what \<^verbatim>\<open>f"{i}"\<close> inserts for an int.\<close>

definition str_int :: "int \<Rightarrow> string" where
  "str_int i = (if i < 0 then ''-'' @ str_nat (nat (- i)) else str_nat (nat i))"

subsection \<open>\<^verbatim>\<open>str.capitalize\<close> and \<^verbatim>\<open>str.strip\<close> on ASCII text\<close>

text \<open>
  \<^verbatim>\<open>str.capitalize\<close> and \<^verbatim>\<open>str.strip\<close> belong to Python and work on all of Unicode; the
  program takes them as it finds them, and so does the model (they are parameters, see the
  libraries below). What follows is not their definition. It is what they compute on a str
  of ASCII characters only, and the theorems about the search use it as their contract on
  such text: the first character in upper case and the rest in lower case, and the
  whitespace of \<^verbatim>\<open>str.isspace\<close> below 128 (tab, line feed, vertical tab, form feed,
  carriage return, the four separators 0x1C to 0x1F, and the space) removed at both ends.
\<close>

definition is_ascii :: "string \<Rightarrow> bool" where
  "is_ascii s = list_all (\<lambda>c. (of_char c :: nat) < 128) s"

definition ascii_isupper :: "char \<Rightarrow> bool" where
  "ascii_isupper c = (65 \<le> (of_char c :: nat) \<and> (of_char c :: nat) \<le> 90)"

definition ascii_islower :: "char \<Rightarrow> bool" where
  "ascii_islower c = (97 \<le> (of_char c :: nat) \<and> (of_char c :: nat) \<le> 122)"

definition ascii_lower :: "char \<Rightarrow> char" where
  "ascii_lower c = (if ascii_isupper c then char_of ((of_char c :: nat) + 32) else c)"

definition ascii_upper :: "char \<Rightarrow> char" where
  "ascii_upper c = (if ascii_islower c then char_of ((of_char c :: nat) - 32) else c)"

definition ascii_isspace :: "char \<Rightarrow> bool" where
  "ascii_isspace c = (let n = (of_char c :: nat) in (9 \<le> n \<and> n \<le> 13) \<or> (28 \<le> n \<and> n \<le> 32))"

fun ascii_capitalize :: "string \<Rightarrow> string" where
  "ascii_capitalize [] = []"
| "ascii_capitalize (c # cs) = ascii_upper c # map ascii_lower cs"

definition ascii_strip :: "string \<Rightarrow> string" where
  "ascii_strip s = rev (dropWhile ascii_isspace (rev (dropWhile ascii_isspace s)))"

subsection \<open>Characters outside ASCII, as UTF-8\<close>

definition en_dash :: string where
  "en_dash = [CHR 0xE2, CHR 0x80, CHR 0x93]"

definition em_dash :: string where
  "em_dash = [CHR 0xE2, CHR 0x80, CHR 0x94]"

definition bullet :: string where
  "bullet = [CHR 0xE2, CHR 0x80, CHR 0xA2]"

definition degree_sign :: string where
  "degree_sign = [CHR 0xC2, CHR 0xB0]"

definition check_mark :: string where
  "check_mark = [CHR 0xE2, CHR 0x9C, CHR 0x85]"

definition sheaf :: string where
  "sheaf = [CHR 0xF0, CHR 0x9F, CHR 0x8C, CHR 0xBE]"

definition herb :: string where
  "herb = [CHR 0xF0, CHR 0x9F, CHR 0x8C, CHR 0xBF]"

definition memo :: string where
  "memo = [CHR 0xF0, CHR 0x9F, CHR 0x93, CHR 0x9D]"

definition blue_diamond :: string where
  "blue_diamond = [CHR 0xF0, CHR 0x9F, CHR 0x94, CHR 0xB9]"

section \<open>The module's tables\<close>

text \<open>The list the synthetic \<^verbatim>\<open>Crop\<close> column is drawn from (lines 25 to 28).\<close>

definition crop_names :: "string list" where
  "crop_names = [''Rice'', ''Wheat'', ''Maize'', ''Cotton'', ''Sugarcane'', ''Barley'', ''Pulses'', ''Coffee'']"

text \<open>The literal of \<^verbatim>\<open>BASE_INFO\<close>: a dict of dicts, in the order of the source.\<close>

definition BASE_INFO :: "(string \<times> (string \<times> string) list) list" where
  "BASE_INFO =
    [
     (''Rice'',
      [
        (''Cultivation'',
         ''Paddy fields; transplant 20'' @ en_dash @ ''30 day seedlings; maintain levees.''),
        (''Water'',
         ''High '' @ em_dash @ '' standing water required for much of the season.''),
        (''Pests'',
         ''Stem borer, leaf folder; watch seedling & tillering stages.''),
        (''Harvest'',
         ''When grains are golden and moisture ~20%.''),
        (''Fertilizer'',
         ''Split N application; use urea and basal P/K.''),
        (''Soil'',
         ''Clayey loam or alluvial soils (good water retention).''),
        (''Climate'',
         ''Warm, humid climate; heavy rainfall preferred.'')]),
     (''Wheat'',
      [
        (''Cultivation'',
         ''Sow in well-drained loamy soil; use certified seeds; maintain row spacing.''),
        (''Water'',
         ''Moderate '' @ em_dash @ '' critical during tillering & grain filling.''),
        (''Pests'',
         ''Rusts, aphids; monitor during cool, humid weather.''),
        (''Harvest'',
         ''Harvest when straw turns yellow and grains hard.''),
        (''Fertilizer'',
         ''Basal N and top-dress at tillering; balanced NPK.''),
        (''Soil'',
         ''Loamy soils with good drainage.''),
        (''Climate'',
         ''Cool to moderate temperatures; less humid than rice.'')]),
     (''Maize'',
      [
        (''Cultivation'',
         ''Sow 3'' @ en_dash @ ''5 cm deep; ensure fertile soil; plant in rows for mechanized weeding.''),
        (''Water'',
         ''Higher need at flowering & grain filling stages.''),
        (''Pests'',
         ''Stem borers, cutworms; use crop rotation.''),
        (''Harvest'',
         ''Harvest when cobs dry and kernels hard.''),
        (''Fertilizer'',
         ''Apply N heavily early; add P & K as needed.''),
        (''Soil'',
         ''Well-drained loam with organic matter.''),
        (''Climate'',
         ''Warm climate; frost-free period needed.'')]),
     (''Cotton'',
      [
        (''Cultivation'',
         ''Plant stem cuttings; prefer sunny, well-drained fields.''),
        (''Water'',
         ''Moderate '' @ em_dash @ '' avoid waterlogging; water more during boll formation.''),
        (''Pests'',
         ''Bollworm, jassids; use integrated pest management.''),
        (''Harvest'',
         ''Harvest when bolls open and lint is fluffy.''),
        (''Fertilizer'',
         ''Balanced NPK; potassium important for lint quality.''),
        (''Soil'',
         ''Black cotton soil or deep loamy soils.''),
        (''Climate'',
         ''Warm climate; long growing season.'')]),
     (''Sugarcane'',
      [
        (''Cultivation'',
         ''Plant setts in rows; incorporate green manure.''),
        (''Water'',
         ''High '' @ em_dash @ '' regular irrigation required.''),
        (''Pests'',
         ''Borers, aphids; maintain field sanitation.''),
        (''Harvest'',
         ''10'' @ en_dash @ ''18 months depending on variety; harvest when cane is mature.''),
        (''Fertilizer'',
         ''High N and K requirements; split applications.''),
        (''Soil'',
         ''Sandy loam to clay loam with organic matter.''),
        (''Climate'',
         ''Tropical to subtropical climates best.'')]),
     (''Barley'',
      [
        (''Cultivation'',
         ''Sow in cooler season; good seedbed preparation.''),
        (''Water'',
         ''Moderate '' @ em_dash @ '' avoid waterlogging.''),
        (''Pests'',
         ''Rusts; keep disease-resistant varieties when available.''),
        (''Harvest'',
         ''When spikes yellow and grains firm.''),
        (''Fertilizer'',
         ''Balanced NPK; lower N than wheat.''),
        (''Soil'',
         ''Sandy loam to loam.''),
        (''Climate'',
         ''Cool to moderate; tolerant to poorer soils.'')]),
     (''Pulses'',
      [
        (''Cultivation'',
         ''Sow after rains; seeds often inoculated with Rhizobium.''),
        (''Water'',
         ''Low to moderate '' @ em_dash @ '' many pulses are drought tolerant.''),
        (''Pests'',
         ''Pod borer and aphids; timely monitoring helps.''),
        (''Harvest'',
         ''Harvest before pods shatter; dry properly.''),
        (''Fertilizer'',
         ''Low N (fix nitrogen), apply P & K as needed.''),
        (''Soil'',
         ''Light to medium soils; good drainage.''),
        (''Climate'',
         ''Often tolerant to semi-arid conditions.'')]),
     (''Coffee'',
      [
        (''Cultivation'',
         ''Shade-grown in rich, well-drained soils; careful pruning.''),
        (''Water'',
         ''Regular moisture but good drainage required.''),
        (''Pests'',
         ''Berry borer, leaf rust; pruning and sanitation important.''),
        (''Harvest'',
         ''Pick ripe red cherries by hand.''),
        (''Fertilizer'',
         ''Apply compost and balanced NPK; micronutrients helpful.''),
        (''Soil'',
         ''Rich, slightly acidic soils (pH ~6'' @ en_dash @ ''6.5).''),
        (''Climate'',
         ''Tropical highlands; cooler nights and shade preferred.'')])]"

definition EXTRA_TIPS :: "string list" where
  "EXTRA_TIPS =
    [''Rotate crops to keep soil healthy.'',
     ''Use mulching to retain soil moisture and suppress weeds.'',
     ''Prefer certified seeds for better germination and yields.'',
     ''Maintain good drainage to avoid root diseases.'',
     ''Use organic manure to improve soil structure.'']"

text \<open>The list \<^verbatim>\<open>fields\<close> of \<^verbatim>\<open>__init__\<close>: label, key and note of each row of the form (lines 144 to 152).\<close>

definition fields_list :: "(string \<times> string \<times> string) list" where
  "fields_list =
    [(''Nitrogen (N)'', ''Nitrogen'', ''(0'' @ en_dash @ ''150)''),
     (''Phosphorus (P)'', ''Phosphorus'', ''(0'' @ en_dash @ ''150)''),
     (''Potassium (K)'', ''Potassium'', ''(0'' @ en_dash @ ''150)''),
     (''Temperature ('' @ degree_sign @ ''C)'', ''Temperature'', ''(10'' @ en_dash @ ''40)''),
     (''Humidity (%)'', ''Humidity'', ''(20'' @ en_dash @ ''90)''),
     (''Soil pH'', ''pH'', ''(4'' @ en_dash @ ''9)''),
     (''Rainfall (mm)'', ''Rainfall'', ''(50'' @ en_dash @ ''300)'')]"

text \<open>The dict \<^verbatim>\<open>ranges\<close> of \<^verbatim>\<open>predict_crop\<close> (lines 198 and 199), in insertion order.\<close>

definition ranges :: "(string \<times> int \<times> int) list" where
  "ranges =
    [(''Nitrogen'', 0, 150), (''Phosphorus'', 0, 150), (''Potassium'', 0, 150),
     (''Temperature'', 10, 40), (''Humidity'', 20, 90), (''pH'', 4, 9), (''Rainfall'', 50, 300)]"

section \<open>The libraries\<close>

text \<open>
  What the program calls and does not define is a parameter: the builtin \<^verbatim>\<open>float\<close> on a
  str (\<open>None\<close> is its ValueError), the methods \<^verbatim>\<open>str.capitalize\<close> and \<^verbatim>\<open>str.strip\<close>,
  scikit-learn's \<^verbatim>\<open>train_test_split\<close>, \<^verbatim>\<open>fit\<close>,
  \<^verbatim>\<open>predict\<close> and \<^verbatim>\<open>predict_proba\<close> over a classifier state \<open>'m\<close>, the double
  multiplication of \<^verbatim>\<open>np.max(probs) * 100\<close> and the format \<^verbatim>\<open>.2f\<close>.
\<close>

record 'm lib =
  py_float :: "string \<Rightarrow> pyfloat option"
  str_capitalize :: "string \<Rightarrow> string"
  str_strip :: "string \<Rightarrow> string"
  train_test_split :: "(real list \<times> int) list \<Rightarrow> (real list \<times> int) list \<times> (real list \<times> int) list"
  fit :: "(real list \<times> int) list \<Rightarrow> 'm"
  predict :: "'m \<Rightarrow> pyfloat list \<Rightarrow> int"
  predict_proba :: "'m \<Rightarrow> pyfloat list \<Rightarrow> real list"
  fmul :: "real \<Rightarrow> real \<Rightarrow> real"
  fmt2f :: "real \<Rightarrow> string"

text \<open>
  \<^verbatim>\<open>LabelEncoder\<close>: \<^verbatim>\<open>classes_\<close> is the sorted list of the distinct labels, a label's code
  is its position there, and \<^verbatim>\<open>inverse_transform\<close> raises ValueError on a code that is no
  position.
\<close>

definition le_fit :: "string list \<Rightarrow> string list" where
  "le_fit col = sort (remdups col)"

definition le_transform :: "string list \<Rightarrow> string \<Rightarrow> int" where
  "le_transform classes c = int (length (takeWhile (\<lambda>x. x \<noteq> c) classes))"

definition inverse_transform :: "string list \<Rightarrow> int \<Rightarrow> string option" where
  "inverse_transform classes l =
     (if 0 \<le> l \<and> l < int (length classes) then Some (classes ! nat l) else None)"

text \<open>\<^verbatim>\<open>np.max\<close> of a vector; ValueError on the empty one.\<close>

definition np_max :: "real list \<Rightarrow> real option" where
  "np_max xs = (case xs of [] \<Rightarrow> None | x # r \<Rightarrow> Some (fold max r x))"

text \<open>
  \<^verbatim>\<open>ax.barh(crops, probs)\<close>: one bar per position after broadcasting the two vectors
  against each other; ValueError when their shapes do not broadcast.
\<close>

definition barh :: "string list \<Rightarrow> real list \<Rightarrow> (string \<times> real) list option" where
  "barh crops probs =
     (if length crops = length probs then Some (zip crops probs)
      else if length probs = 1 then Some (map (\<lambda>c. (c, hd probs)) crops)
      else if length crops = 1 then Some (map (\<lambda>p. (hd crops, p)) probs)
      else None)"

section \<open>The state of the process\<close>

text \<open>
  What the outside sees of a run: the one \<^verbatim>\<open>model.fit\<close> of the module body, every
  \<^verbatim>\<open>messagebox.showerror\<close> (title, message), and every inference, with the classifier
  state it ran on.
\<close>

datatype 'm effect =
    Fit "(real list \<times> int) list"
  | Showerror string string
  | Predict 'm "pyfloat list"
  | Predict_proba 'm "pyfloat list"

text \<open>
  The module's globals (\<^verbatim>\<open>model\<close>, \<^verbatim>\<open>le.classes_\<close>, \<^verbatim>\<open>BASE_INFO\<close>, \<^verbatim>\<open>EXTRA_TIPS\<close>) and
  the widgets of \<^verbatim>\<open>CropRecommendationApp\<close>. \<open>entries\<close> is the dict from key to the text of
  its entry widget, in insertion order; \<open>chart_frame\<close> holds the frame's children, each a
  chart given by its bars.
\<close>

record 'm app =
  model :: 'm
  le_classes :: "string list"
  base_info :: "(string \<times> (string \<times> string) list) list"
  extra_tips :: "string list"
  entries :: "(string \<times> string) list"
  search_var :: string
  result_label :: string
  info_text :: string
  chart_frame :: "(string \<times> real) list list"
  log :: "'m effect list"

text \<open>
  The module body (lines 15 to 107) and \<^verbatim>\<open>__init__\<close>. \<open>data\<close> is the frame the
  \<^verbatim>\<open>np.random\<close> calls produce: one row of seven features and a crop name per sample.
\<close>

definition startup :: "'m lib \<Rightarrow> (real list \<times> string) list \<Rightarrow> 'm app" where
  "startup L data =
     (let classes = le_fit (map snd data);
          xy = map (\<lambda>(x, crop). (x, le_transform classes crop)) data;
          (train, test) = train_test_split L xy;
          m = fit L train
      in \<lparr> model = m, le_classes = classes, base_info = BASE_INFO, extra_tips = EXTRA_TIPS,
           entries = map (\<lambda>(lbl, key, note). (key, [])) fields_list,
           search_var = [], result_label = [], info_text = [], chart_frame = [],
           log = [Fit train] \<rparr>)"

section \<open>The operations\<close>

definition showerror :: "string \<Rightarrow> string \<Rightarrow> 'm app \<Rightarrow> 'm app" where
  "showerror title message s = s\<lparr>log := log s @ [Showerror title message]\<rparr>"

text \<open>
  The dict comprehension of line 192: \<^verbatim>\<open>float\<close> on each entry's text in order; \<open>None\<close>
  when one of them raises ValueError.
\<close>

fun read_inputs :: "(string \<Rightarrow> pyfloat option) \<Rightarrow> (string \<times> string) list \<Rightarrow> (string \<times> pyfloat) list option" where
  "read_inputs fl [] = Some []"
| "read_inputs fl ((k, v) # es) =
     (case fl v of
        None \<Rightarrow> None
      | Some x \<Rightarrow> (case read_inputs fl es of None \<Rightarrow> None | Some r \<Rightarrow> Some ((k, x) # r)))"

text \<open>
  The loop of lines 201 to 204: the first key in the order of \<^verbatim>\<open>ranges\<close> whose value is
  not within its range stops it. \<^verbatim>\<open>inputs[k]\<close> raises KeyError on a key that is absent.
\<close>

datatype range_check = All_in_range | Out_of_range string int int | Missing_key string

fun check_ranges :: "(string \<times> int \<times> int) list \<Rightarrow> (string \<times> pyfloat) list \<Rightarrow> range_check" where
  "check_ranges [] inputs = All_in_range"
| "check_ranges ((k, low, high) # rs) inputs =
     (case map_of inputs k of
        None \<Rightarrow> Missing_key k
      | Some x \<Rightarrow>
          if \<not> between low x high then Out_of_range k low high
          else check_ranges rs inputs)"

definition range_message :: "string \<Rightarrow> int \<Rightarrow> int \<Rightarrow> string" where
  "range_message k low high =
     k @ '' must be between '' @ str_int low @ '' and '' @ str_int high @ ''.''"

text \<open>\<^verbatim>\<open>BASE_INFO.get(crop, {})\<close>: the entry of the crop, the empty dict when there is none.\<close>

definition base_get :: "(string \<times> (string \<times> string) list) list \<Rightarrow> string \<Rightarrow> (string \<times> string) list" where
  "base_get table crop = (case map_of table crop of None \<Rightarrow> [] | Some d \<Rightarrow> d)"

text \<open>
  The local \<^verbatim>\<open>final_text\<close> of \<^verbatim>\<open>_show_crop_info\<close>: a title, a rule of 56 dashes, one
  paragraph per heading of the crop's entry, and the tips. \<open>picked\<close> is what
  \<^verbatim>\<open>random.sample(EXTRA_TIPS, k=2)\<close> returns.
\<close>

definition final_text :: "(string \<times> (string \<times> string) list) list \<Rightarrow> string list \<Rightarrow> string \<Rightarrow> string" where
  "final_text table picked crop =
     (let base = base_get table crop;
          text0 = sheaf @ '' '' @ crop @ '' Cultivation Guide\<newline>'' @ replicate 56 (CHR ''-'')
                    @ ''\<newline>\<newline>'';
          text1 = fold (\<lambda>(heading, text) acc.
                    acc @ blue_diamond @ '' '' @ heading @ '': '' @ text @ ''\<newline>\<newline>'') base text0;
          text2 = text1 @ memo @ '' Extra Tips:\<newline>''
      in fold (\<lambda>t acc. acc @ ''   '' @ bullet @ '' '' @ t @ ''\<newline>'') picked text2)"

text \<open>
  \<^verbatim>\<open>_show_crop_info\<close>: the text widget is emptied and filled with \<^verbatim>\<open>final_text\<close>.
  \<open>inputs\<close> is the parameter the body never reads.
\<close>

definition show_crop_info :: "string list \<Rightarrow> string \<Rightarrow> (string \<times> pyfloat) list \<Rightarrow> 'm app \<Rightarrow> 'm app" where
  "show_crop_info picked crop inputs s = s\<lparr>info_text := final_text (base_info s) picked crop\<rparr>"

text \<open>\<^verbatim>\<open>_show_chart\<close>: the old children are destroyed before the new chart is drawn.\<close>

definition show_chart :: "real list \<Rightarrow> 'm app \<Rightarrow> pyerr option \<times> 'm app" where
  "show_chart probs s =
     (let s1 = s\<lparr>chart_frame := []\<rparr>;
          crops = le_classes s1
      in case barh crops probs of
           None \<Rightarrow> (Some (ValueError ''shape mismatch''), s1)
         | Some bars \<Rightarrow> (None, s1\<lparr>chart_frame := chart_frame s1 @ [bars]\<rparr>))"

definition recommended_text :: "string \<Rightarrow> string \<Rightarrow> string" where
  "recommended_text pred_crop conf =
     herb @ '' Recommended Crop: '' @ pred_crop @ ''    '' @ check_mark @ '' Confidence: '' @ conf @ ''%''"

text \<open>
  \<^verbatim>\<open>predict_crop\<close>. The result pairs the exception that leaves the callback, if any, with
  the state at that moment.
\<close>

definition predict_crop :: "'m lib \<Rightarrow> string list \<Rightarrow> 'm app \<Rightarrow> pyerr option \<times> 'm app" where
  "predict_crop L picked s =
     (case read_inputs (py_float L) (entries s) of
        None \<Rightarrow> (None, showerror ''Invalid Input'' ''Please enter numeric values for all fields.'' s)
      | Some inputs \<Rightarrow>
          (case check_ranges ranges inputs of
             Missing_key k \<Rightarrow> (Some (KeyError k), s)
           | Out_of_range k low high \<Rightarrow>
               (None, showerror ''Invalid Input'' (range_message k low high) s)
           | All_in_range \<Rightarrow>
               (let arr = map snd inputs;
                    pred_label = predict L (model s) arr;
                    s1 = s\<lparr>log := log s @ [Predict (model s) arr]\<rparr>
                in case inverse_transform (le_classes s1) pred_label of
                     None \<Rightarrow> (Some (ValueError ''y contains previously unseen labels''), s1)
                   | Some pred_crop \<Rightarrow>
                       (let probs = predict_proba L (model s1) arr;
                            s2 = s1\<lparr>log := log s1 @ [Predict_proba (model s1) arr]\<rparr>
                        in case np_max probs of
                             None \<Rightarrow> (Some (ValueError ''zero-size array''), s2)
                           | Some m \<Rightarrow>
                               (let confidence = fmul L m 100;
                                    s3 = s2\<lparr>result_label := recommended_text pred_crop (fmt2f L confidence)\<rparr>;
                                    s4 = show_crop_info picked pred_crop inputs s3
                                in show_chart probs s4)))))"

text \<open>\<^verbatim>\<open>search_crop\<close>: the text of the search box, capitalized and then stripped, is looked up.\<close>

definition search_crop :: "'m lib \<Rightarrow> string list \<Rightarrow> 'm app \<Rightarrow> 'm app" where
  "search_crop L picked s =
     (let crop = str_strip L (str_capitalize L (search_var s))
      in if map_of (base_info s) crop = None
         then showerror ''Not Found'' (''Crop '' @ [CHR 0x27] @ crop @ [CHR 0x27] @ '' not found.'') s
         else show_crop_info picked crop []
                (s\<lparr>result_label := sheaf @ '' Information for '' @ crop @ '':''\<rparr>))"

section \<open>Runs\<close>

text \<open>
  What can happen after startup: the user edits an entry or the search box, or presses one
  of the two buttons. A button event carries the draw \<^verbatim>\<open>random.sample\<close> makes if the
  callback reaches it. Tk reports an exception that leaves a callback and goes on with
  the state the callback left.
\<close>

datatype event =
    Type_entry string string
  | Type_search string
  | Click_predict "string list"
  | Click_search "string list"

fun step :: "'m lib \<Rightarrow> event \<Rightarrow> 'm app \<Rightarrow> 'm app" where
  "step L (Type_entry key txt) s =
     s\<lparr>entries := map (\<lambda>(k, v). if k = key then (k, txt) else (k, v)) (entries s)\<rparr>"
| "step L (Type_search txt) s = s\<lparr>search_var := txt\<rparr>"
| "step L (Click_predict picked) s = snd (predict_crop L picked s)"
| "step L (Click_search picked) s = search_crop L picked s"

definition run :: "'m lib \<Rightarrow> event list \<Rightarrow> 'm app \<Rightarrow> 'm app" where
  "run L evs s = fold (step L) evs s"

section \<open>Notions of the specification\<close>

text \<open>A value lies within an inclusive range: it is a finite number between the two bounds.\<close>

fun lies_within :: "int \<Rightarrow> int \<Rightarrow> pyfloat \<Rightarrow> bool" where
  "lies_within lo hi (Fin r) = (real_of_int lo \<le> r \<and> r \<le> real_of_int hi)"
| "lies_within lo hi PosInf = False"
| "lies_within lo hi NegInf = False"
| "lies_within lo hi NaN = False"

fun in_range :: "string \<times> int \<times> int \<Rightarrow> pyfloat \<Rightarrow> bool" where
  "in_range (k, lo, hi) v = lies_within lo hi v"

text \<open>The seven ranges as the specification lists them.\<close>

definition spec_ranges :: "pyfloat \<Rightarrow> pyfloat \<Rightarrow> pyfloat \<Rightarrow> pyfloat \<Rightarrow> pyfloat \<Rightarrow> pyfloat \<Rightarrow> pyfloat \<Rightarrow> bool" where
  "spec_ranges n p k t h ph r =
     (lies_within 0 150 n \<and> lies_within 0 150 p \<and> lies_within 0 150 k \<and> lies_within 10 40 t
      \<and> lies_within 20 90 h \<and> lies_within 4 9 ph \<and> lies_within 50 300 r)"

text \<open>The keys of the form, in the order \<^verbatim>\<open>__init__\<close> inserts them.\<close>

definition field_keys :: "string list" where
  "field_keys = [''Nitrogen'', ''Phosphorus'', ''Potassium'', ''Temperature'', ''Humidity'', ''pH'', ''Rainfall'']"

text \<open>
  A request, given by the texts of the seven entries, is valid when every text is numeric
  and every value lies within the range of its field.
\<close>

definition request_valid :: "'m lib \<Rightarrow> string list \<Rightarrow> bool" where
  "request_valid L texts =
     (case those (map (py_float L) texts) of
        None \<Rightarrow> False
      | Some vs \<Rightarrow> list_all2 in_range ranges vs)"

text \<open>What an operation adds to the log, and which effects are inferences.\<close>

definition effects_since :: "'m app \<Rightarrow> 'm app \<Rightarrow> 'm effect list" where
  "effects_since s s' = drop (length (log s)) (log s')"

fun is_inference :: "'m effect \<Rightarrow> bool" where
  "is_inference (Predict m arr) = True"
| "is_inference (Predict_proba m arr) = True"
| "is_inference (Fit rows) = False"
| "is_inference (Showerror title message) = False"

text \<open>The user fills the form.\<close>

definition type_form :: "string list \<Rightarrow> event list" where
  "type_form texts = map (\<lambda>(key, txt). Type_entry key txt) (zip field_keys texts)"

section \<open>A stand-in for the libraries\<close>

text \<open>
  Concrete libraries to evaluate the operations on: a \<^verbatim>\<open>float\<close> that reads unsigned decimal
  integers and raises on every other text, the ASCII functions for \<^verbatim>\<open>capitalize\<close> and
  \<^verbatim>\<open>strip\<close>, a split that keeps the first four fifths for training, and a classifier that
  is the number of its training rows and always answers class 3 with probability 3/10 and
  every other class with 1/10. The generated data are ten rows, the eight names and two
  more, so that the training part holds all eight. On the texts used below, all of them
  ASCII, the stand-ins return what Python's functions do.
\<close>

fun digits_value :: "string \<Rightarrow> nat \<Rightarrow> nat option" where
  "digits_value [] acc = Some acc"
| "digits_value (c # cs) acc =
     (if 48 \<le> (of_char c :: nat) \<and> (of_char c :: nat) \<le> 57
      then digits_value cs (10 * acc + ((of_char c :: nat) - 48)) else None)"

definition demo_float :: "string \<Rightarrow> pyfloat option" where
  "demo_float s = (if s = [] then None else map_option (\<lambda>n. Fin (real n)) (digits_value s 0))"

definition demo_lib :: "nat lib" where
  "demo_lib = \<lparr> py_float = demo_float,
      str_capitalize = ascii_capitalize,
      str_strip = ascii_strip,
      train_test_split = (\<lambda>rows. (take (length rows * 4 div 5) rows, drop (length rows * 4 div 5) rows)),
      fit = length,
      predict = (\<lambda>m arr. 3),
      predict_proba = (\<lambda>m arr. [1 / 10, 1 / 10, 1 / 10, 3 / 10, 1 / 10, 1 / 10, 1 / 10, 1 / 10]),
      fmul = (\<lambda>x y. x * y),
      fmt2f = (\<lambda>x. ''?'') \<rparr>"

definition demo_data :: "(real list \<times> string) list" where
  "demo_data = map (\<lambda>c. ([0, 0, 0, 10, 20, 4, 50], c)) (crop_names @ [''Rice'', ''Wheat''])"

definition demo_filled :: "string list \<Rightarrow> nat app" where
  "demo_filled texts = run demo_lib (type_form texts) (startup demo_lib demo_data)"

text \<open>A message names a field when the field's key occurs in it.\<close>

fun is_infix :: "string \<Rightarrow> string \<Rightarrow> bool" where
  "is_infix xs [] = (xs = [])"
| "is_infix xs (y # ys) = (take (length xs) (y # ys) = xs \<or> is_infix xs ys)"

definition names_a_field :: "string \<Rightarrow> bool" where
  "names_a_field message = list_ex (\<lambda>(k, low, high). is_infix k message) ranges"

section \<open>Further notions of the specification\<close>

text \<open>The seven headings of an entry of the knowledge table, as the specification lists them.\<close>

definition headings :: "string list" where
  "headings = [''Cultivation'', ''Water'', ''Pests'', ''Harvest'', ''Fertilizer'', ''Soil'', ''Climate'']"

text \<open>
  The frame the module body trains on: the rows with the crop replaced by its code
  (\<^verbatim>\<open>X\<close> and \<^verbatim>\<open>y\<close>), and the training part of its split.
\<close>

definition labelled :: "(real list \<times> string) list \<Rightarrow> (real list \<times> int) list" where
  "labelled data = map (\<lambda>(x, crop). (x, le_transform (le_fit (map snd data)) crop)) data"

definition training_rows :: "'m lib \<Rightarrow> (real list \<times> string) list \<Rightarrow> (real list \<times> int) list" where
  "training_rows L data = fst (train_test_split L (labelled data))"

text \<open>Which effects are a fit, and the classifier state an inference ran on.\<close>

fun is_fit :: "'m effect \<Rightarrow> bool" where
  "is_fit (Fit rows) = True"
| "is_fit (Showerror title message) = False"
| "is_fit (Predict m arr) = False"
| "is_fit (Predict_proba m arr) = False"

fun classifier_of :: "'m effect \<Rightarrow> 'm option" where
  "classifier_of (Predict m arr) = Some m"
| "classifier_of (Predict_proba m arr) = Some m"
| "classifier_of (Fit rows) = None"
| "classifier_of (Showerror title message) = None"

text \<open>
  What the operations append to the log after startup: never a fit, and inferences on the
  classifier \<open>m\<close> only.
\<close>

definition later_effects_ok :: "'m \<Rightarrow> 'm effect list \<Rightarrow> bool" where
  "later_effects_ok m es =
     list_all (\<lambda>e. \<not> is_fit e \<and> (classifier_of e = None \<or> classifier_of e = Some m)) es"

text \<open>The eight crop names in the order of \<^verbatim>\<open>le.classes_\<close>.\<close>

definition sorted_crop_names :: "string list" where
  "sorted_crop_names = [''Barley'', ''Coffee'', ''Cotton'', ''Maize'', ''Pulses'', ''Rice'', ''Sugarcane'', ''Wheat'']"

text \<open>Two strings that differ in the case of their letters only.\<close>

definition same_letters :: "string \<Rightarrow> string \<Rightarrow> bool" where
  "same_letters s t = (map ascii_lower s = map ascii_lower t)"

text \<open>A session with the stand-in libraries: a valid request, two searches and an invalid request.\<close>

definition demo_events :: "event list" where
  "demo_events =
     type_form [''50'', ''50'', ''50'', ''20'', ''50'', ''6'', ''100'']
       @ [Click_predict [''Rotate crops to keep soil healthy.'', ''Use organic manure to improve soil structure.''],
          Type_search ''maize'',
          Click_search [''Maintain good drainage to avoid root diseases.'', ''Rotate crops to keep soil healthy.''],
          Type_entry ''pH'' ''12'', Click_predict [], Type_search ''Yam'', Click_search []]"

definition demo_search :: "string \<Rightarrow> nat app" where
  "demo_search txt = run demo_lib [Type_search txt] (startup demo_lib demo_data)"

section \<open>Validation\<close>

lemma between_within: "between lo x hi = lies_within lo hi x"
  by (cases x) (simp_all add: between_def)

lemma ranges_keys: "map fst ranges = field_keys"
  by (simp add: ranges_def field_keys_def)

lemma read_inputs_zip:
  "length ks = length ts \<Longrightarrow>
   read_inputs fl (zip ks ts) = map_option (zip ks) (those (map fl ts))"
proof (induction ks ts rule: list_induct2)
  case Nil
  then show ?case by simp
next
  case (Cons k ks t ts)
  then show ?case
    by (cases "fl t"; cases "those (map fl ts)") simp_all
qed

lemma those_eq_Some: "those os = Some vs \<longleftrightarrow> os = map Some vs"
proof (induction os arbitrary: vs)
  case Nil
  then show ?case by auto
next
  case (Cons a os)
  then show ?case
    by (cases a) (auto simp: map_eq_Cons_conv Cons_eq_map_conv)
qed

lemma those_eq_None: "those os = None \<longleftrightarrow> None \<in> set os"
proof (induction os)
  case Nil
  then show ?case by simp
next
  case (Cons a os)
  then show ?case by (cases a) auto
qed

text \<open>
  The loop over \<^verbatim>\<open>ranges\<close> finds the first pair of a range and a value that is out of
  range. The entries read so far (\<open>pre\<close>) stay in the dict while the loop goes on.
\<close>

lemma check_ranges_find:
  assumes "distinct (map fst rs)" and "length vs = length rs"
    and "set (map fst pre) \<inter> set (map fst rs) = {}"
  shows "check_ranges rs (pre @ zip (map fst rs) vs) =
     (case find (\<lambda>(r, v). \<not> in_range r v) (zip rs vs) of
        None \<Rightarrow> All_in_range
      | Some ((k, lo, hi), v) \<Rightarrow> Out_of_range k lo hi)"
  using assms
proof (induction rs arbitrary: vs pre)
  case Nil
  then show ?case by simp
next
  case (Cons r rs)
  obtain k lo hi where r: "r = (k, lo, hi)" by (cases r)
  from Cons.prems obtain v vs' where vs: "vs = v # vs'" and len: "length vs' = length rs"
    by (cases vs) auto
  from Cons.prems r have notin: "k \<notin> fst ` set pre" by auto
  then have look: "map_of (pre @ (k, v) # zip (map fst rs) vs') k = Some v"
    by (simp add: map_add_def map_of_eq_None_iff [THEN iffD2] split: option.split)
  show ?case
  proof (cases "lies_within lo hi v")
    case False
    with look show ?thesis by (simp add: r vs between_within)
  next
    case True
    have "check_ranges rs ((pre @ [(k, v)]) @ zip (map fst rs) vs') =
      (case find (\<lambda>(r, v). \<not> in_range r v) (zip rs vs') of
         None \<Rightarrow> All_in_range
       | Some ((k, lo, hi), v) \<Rightarrow> Out_of_range k lo hi)"
      using Cons.prems r by (intro Cons.IH len) auto
    with True look show ?thesis by (simp add: r vs between_within)
  qed
qed

lemma check_ranges_zip:
  assumes "length vs = length ranges"
  shows "check_ranges ranges (zip field_keys vs) =
     (case find (\<lambda>(r, v). \<not> in_range r v) (zip ranges vs) of
        None \<Rightarrow> All_in_range
      | Some ((k, lo, hi), v) \<Rightarrow> Out_of_range k lo hi)"
proof -
  have "distinct (map fst ranges)" by (simp add: ranges_def)
  from check_ranges_find [OF this assms, of "[]"] show ?thesis by (simp add: ranges_keys)
qed

lemma read_inputs_form:
  assumes "entries s = zip field_keys texts" and "map (py_float L) texts = map Some vs"
    and "length texts = 7"
  shows "read_inputs (py_float L) (entries s) = Some (zip field_keys vs)"
proof -
  have "those (map (py_float L) texts) = Some vs"
    using assms(2) by (simp add: those_eq_Some)
  moreover have "length field_keys = length texts"
    using assms(3) by (simp add: field_keys_def)
  ultimately show ?thesis
    using assms(1) by (simp add: read_inputs_zip)
qed

lemma find_ranges7:
  "find (\<lambda>(r, v). \<not> in_range r v) (zip ranges [n, p, k, t, h, ph, r]) = None
     \<longleftrightarrow> spec_ranges n p k t h ph r"
  by (simp add: ranges_def spec_ranges_def)

section \<open>The three ways through \<^verbatim>\<open>predict_crop\<close>\<close>

lemma predict_crop_nonnumeric:
  assumes "read_inputs (py_float L) (entries s) = None"
  shows "predict_crop L picked s =
     (None, showerror ''Invalid Input'' ''Please enter numeric values for all fields.'' s)"
  using assms by (simp add: predict_crop_def)

lemma predict_crop_out_of_range:
  assumes "read_inputs (py_float L) (entries s) = Some inputs"
    and "check_ranges ranges inputs = Out_of_range k low high"
  shows "predict_crop L picked s =
     (None, showerror ''Invalid Input'' (range_message k low high) s)"
  using assms by (simp add: predict_crop_def)

lemma show_chart_log: "log (snd (show_chart probs s)) = log s"
  by (simp add: show_chart_def Let_def split: option.splits)

lemma show_crop_info_log: "log (show_crop_info picked crop inputs s) = log s"
  by (simp add: show_crop_info_def)

lemma predict_crop_valid_log:
  assumes "read_inputs (py_float L) (entries s) = Some inputs"
    and "check_ranges ranges inputs = All_in_range"
  shows "log (snd (predict_crop L picked s)) = log s @ [Predict (model s) (map snd inputs)]
       \<or> log (snd (predict_crop L picked s)) =
           log s @ [Predict (model s) (map snd inputs), Predict_proba (model s) (map snd inputs)]"
  using assms
  by (simp add: predict_crop_def Let_def show_chart_log show_crop_info_log split: option.splits)

section \<open>Requests that fail validation\<close>

lemma find_Some_mem: "find P xs = Some x \<Longrightarrow> x \<in> set xs \<and> P x"
  by (induction xs) (auto split: if_splits)

lemma invalid_request_cases:
  assumes form: "entries s = zip field_keys texts" and len: "length texts = 7"
    and inv: "\<not> request_valid L texts"
  obtains (non_numeric) "None \<in> set (map (py_float L) texts)"
      and "read_inputs (py_float L) (entries s) = None"
    | (out_of_range) vs k lo hi v where "map (py_float L) texts = map Some vs"
      and "read_inputs (py_float L) (entries s) = Some (zip field_keys vs)"
      and "check_ranges ranges (zip field_keys vs) = Out_of_range k lo hi"
      and "((k, lo, hi), v) \<in> set (zip ranges vs)" and "\<not> lies_within lo hi v"
proof (cases "those (map (py_float L) texts)")
  case None
  have "length field_keys = length texts"
    using len by (simp add: field_keys_def)
  then have "read_inputs (py_float L) (entries s) = None"
    using None form by (simp add: read_inputs_zip)
  moreover have "None \<in> set (map (py_float L) texts)"
    using None by (simp only: those_eq_None)
  ultimately show ?thesis by (rule non_numeric [rotated])
next
  case (Some vs)
  then have vs: "map (py_float L) texts = map Some vs"
    by (simp only: those_eq_Some)
  then have "length (map (py_float L) texts) = length (map Some vs)" by simp
  then have lvs: "length vs = length ranges"
    using len by (simp add: ranges_def)
  have rd: "read_inputs (py_float L) (entries s) = Some (zip field_keys vs)"
    by (rule read_inputs_form [OF form vs len])
  from inv Some have "\<not> list_all2 in_range ranges vs"
    by (simp add: request_valid_def)
  with lvs obtain r v where rv: "(r, v) \<in> set (zip ranges vs)" and nb: "\<not> in_range r v"
    by (auto simp: list_all2_iff)
  moreover obtain k0 lo0 hi0 where "r = (k0, lo0, hi0)" by (cases r)
  ultimately have "find (\<lambda>(r, v). \<not> in_range r v) (zip ranges vs) \<noteq> None"
    by (auto simp: find_None_iff)
  then obtain k lo hi v' where f: "find (\<lambda>(r, v). \<not> in_range r v) (zip ranges vs) = Some ((k, lo, hi), v')"
    by (cases "find (\<lambda>(r, v). \<not> in_range r v) (zip ranges vs)") auto
  then have mem: "((k, lo, hi), v') \<in> set (zip ranges vs)" and bad: "\<not> lies_within lo hi v'"
    by (auto dest: find_Some_mem)
  have "check_ranges ranges (zip field_keys vs) = Out_of_range k lo hi"
    using check_ranges_zip [OF lvs] f by simp
  with vs rd show ?thesis using mem bad by (rule out_of_range)
qed

section \<open>Globals and the log\<close>

lemma startup_globals:
  "model (startup L data) = fit L (training_rows L data)"
  "le_classes (startup L data) = le_fit (map snd data)"
  "base_info (startup L data) = BASE_INFO"
  "extra_tips (startup L data) = EXTRA_TIPS"
  "log (startup L data) = [Fit (training_rows L data)]"
  by (simp_all add: startup_def training_rows_def labelled_def Let_def split_def)

lemma show_crop_info_globals:
  "model (show_crop_info picked crop inputs s) = model s"
  "le_classes (show_crop_info picked crop inputs s) = le_classes s"
  "base_info (show_crop_info picked crop inputs s) = base_info s"
  "extra_tips (show_crop_info picked crop inputs s) = extra_tips s"
  by (simp_all add: show_crop_info_def)

lemma show_chart_globals:
  "model (snd (show_chart probs s)) = model s"
  "le_classes (snd (show_chart probs s)) = le_classes s"
  "base_info (snd (show_chart probs s)) = base_info s"
  "extra_tips (snd (show_chart probs s)) = extra_tips s"
  by (simp_all add: show_chart_def Let_def split: option.splits)

lemma predict_crop_globals:
  "model (snd (predict_crop L picked s)) = model s"
  "le_classes (snd (predict_crop L picked s)) = le_classes s"
  "base_info (snd (predict_crop L picked s)) = base_info s"
  "extra_tips (snd (predict_crop L picked s)) = extra_tips s"
  by (simp_all add: predict_crop_def showerror_def Let_def show_chart_globals show_crop_info_globals
      split: option.splits range_check.splits)

lemma search_crop_globals:
  "model (search_crop L picked s) = model s"
  "le_classes (search_crop L picked s) = le_classes s"
  "base_info (search_crop L picked s) = base_info s"
  "extra_tips (search_crop L picked s) = extra_tips s"
  by (simp_all add: search_crop_def showerror_def Let_def show_crop_info_globals)

lemma step_globals:
  "model (step L ev s) = model s"
  "le_classes (step L ev s) = le_classes s"
  "base_info (step L ev s) = base_info s"
  "extra_tips (step L ev s) = extra_tips s"
  by (cases ev; simp add: predict_crop_globals search_crop_globals)+

lemma run_globals:
  "model (run L evs s) = model s"
  "le_classes (run L evs s) = le_classes s"
  "base_info (run L evs s) = base_info s"
  "extra_tips (run L evs s) = extra_tips s"
  unfolding run_def by (induction evs arbitrary: s; simp add: step_globals)+

lemma predict_crop_appends:
  "\<exists>new. log (snd (predict_crop L picked s)) = log s @ new \<and> later_effects_ok (model s) new"
proof (cases "read_inputs (py_float L) (entries s)")
  case None
  then show ?thesis
    by (simp add: predict_crop_nonnumeric showerror_def later_effects_ok_def)
next
  case (Some inputs)
  show ?thesis
  proof (cases "check_ranges ranges inputs")
    case All_in_range
    from predict_crop_valid_log [OF Some All_in_range, of picked] show ?thesis
      by (auto simp: later_effects_ok_def)
  next
    case (Out_of_range k low high)
    with Some show ?thesis
      by (simp add: predict_crop_out_of_range showerror_def later_effects_ok_def)
  next
    case (Missing_key k)
    with Some show ?thesis
      by (simp add: predict_crop_def later_effects_ok_def)
  qed
qed

lemma search_crop_appends:
  "\<exists>new. log (search_crop L picked s) = log s @ new \<and> later_effects_ok (model s) new"
  by (simp add: search_crop_def Let_def showerror_def show_crop_info_log later_effects_ok_def)

lemma step_appends:
  "\<exists>new. log (step L ev s) = log s @ new \<and> later_effects_ok (model s) new"
proof (cases ev)
  case (Click_predict picked)
  then show ?thesis using predict_crop_appends [of L picked s] by simp
next
  case (Click_search picked)
  then show ?thesis using search_crop_appends [of L picked s] by simp
qed (simp_all add: later_effects_ok_def)

lemma run_appends:
  "\<exists>new. log (run L evs s) = log s @ new \<and> later_effects_ok (model s) new"
proof (induction evs arbitrary: s)
  case Nil
  then show ?case by (simp add: run_def later_effects_ok_def)
next
  case (Cons ev evs)
  obtain new1 where n1: "log (step L ev s) = log s @ new1" "later_effects_ok (model s) new1"
    using step_appends by blast
  obtain new2 where n2: "log (run L evs (step L ev s)) = log (step L ev s) @ new2"
      "later_effects_ok (model (step L ev s)) new2"
    using Cons.IH by blast
  have "run L (ev # evs) s = run L evs (step L ev s)"
    by (simp add: run_def)
  with n1 n2 have "log (run L (ev # evs) s) = log s @ (new1 @ new2)"
      and "later_effects_ok (model s) (new1 @ new2)"
    by (simp_all add: step_globals later_effects_ok_def)
  then show ?case by blast
qed

section \<open>The label encoder and the tables\<close>

lemma set_le_fit: "set (le_fit col) = set col"
  by (simp add: le_fit_def)

lemma first_position:
  assumes "c \<in> set classes"
  shows "length (takeWhile (\<lambda>x. x \<noteq> c) classes) < length classes
     \<and> classes ! length (takeWhile (\<lambda>x. x \<noteq> c) classes) = c"
  using assms
proof (induction classes)
  case Nil
  then show ?case by simp
next
  case (Cons a classes)
  then show ?case by (cases "a = c") auto
qed

lemma le_transform_index:
  assumes "c \<in> set classes"
  shows "0 \<le> le_transform classes c \<and> le_transform classes c < int (length classes)
     \<and> classes ! nat (le_transform classes c) = c"
  using first_position [OF assms] by (simp add: le_transform_def)

lemma inverse_transform_le_transform:
  "c \<in> set classes \<Longrightarrow> inverse_transform classes (le_transform classes c) = Some c"
  using le_transform_index [of c classes] by (simp add: inverse_transform_def)

lemma labelled_label:
  assumes "(x, l) \<in> set (labelled data)"
  shows "\<exists>crop\<in>set (map snd data). inverse_transform (le_fit (map snd data)) l = Some crop"
proof -
  from assms obtain crop where "(x, crop) \<in> set data" and l: "l = le_transform (le_fit (map snd data)) crop"
    by (auto simp: labelled_def)
  then have "crop \<in> set (map snd data)" by force
  then show ?thesis
    using l by (auto simp: inverse_transform_le_transform set_le_fit simp del: set_map)
qed

lemma BASE_INFO_keys: "map fst BASE_INFO = crop_names"
  by (simp add: BASE_INFO_def crop_names_def)

lemma BASE_INFO_headings: "\<forall>crop\<in>set crop_names. map fst (base_get BASE_INFO crop) = headings"
  by code_simp

lemma BASE_INFO_texts:
  "\<forall>crop\<in>set crop_names. \<forall>(heading, text)\<in>set (base_get BASE_INFO crop). text \<noteq> []"
  by code_simp

lemma le_fit_crop_names: "le_fit crop_names = sorted_crop_names"
  by code_simp

lemma le_fit_all_drawn:
  assumes "set col = set crop_names"
  shows "le_fit col = sorted_crop_names"
proof -
  have "le_fit col = le_fit crop_names"
    unfolding le_fit_def
    by (rule sorted_distinct_set_unique) (simp_all add: assms)
  then show ?thesis by (simp add: le_fit_crop_names)
qed

lemma labelled_codes:
  "snd ` set (labelled data) = le_transform (le_fit (map snd data)) ` set (map snd data)"
  by (force simp: labelled_def image_iff)

lemma crop_codes: "card (le_transform sorted_crop_names ` set crop_names) = 8"
  by code_simp

section \<open>A request that passes validation\<close>

lemma np_max_Max: "xs \<noteq> [] \<Longrightarrow> np_max xs = Some (Max (set xs))"
  by (cases xs) (simp_all add: np_max_def Max.set_eq_fold [symmetric])

lemma predict_crop_valid_state:
  assumes "read_inputs (py_float L) (entries s) = Some inputs"
    and "check_ranges ranges inputs = All_in_range"
    and "inverse_transform (le_classes s) (predict L (model s) (map snd inputs)) = Some crop"
    and "np_max (predict_proba L (model s) (map snd inputs)) = Some m"
  shows "predict_crop L picked s =
     show_chart (predict_proba L (model s) (map snd inputs))
       (show_crop_info picked crop inputs
         (s\<lparr>log := log s @ [Predict (model s) (map snd inputs), Predict_proba (model s) (map snd inputs)],
            result_label := recommended_text crop (fmt2f L (fmul L m 100))\<rparr>))"
  using assms by (simp add: predict_crop_def Let_def)

lemma show_chart_widgets:
  "result_label (snd (show_chart probs s)) = result_label s"
  "info_text (snd (show_chart probs s)) = info_text s"
  by (simp_all add: show_chart_def Let_def split: option.splits)

lemma valid_request_inputs:
  assumes form: "entries s = zip field_keys texts" and len: "length texts = 7"
    and valid: "request_valid L texts"
  obtains vs where "map (py_float L) texts = map Some vs" and "length vs = 7"
    and "list_all2 in_range ranges vs"
    and "read_inputs (py_float L) (entries s) = Some (zip field_keys vs)"
    and "check_ranges ranges (zip field_keys vs) = All_in_range"
    and "map snd (zip field_keys vs) = vs"
proof -
  from valid obtain vs where th: "those (map (py_float L) texts) = Some vs"
      and ok: "list_all2 in_range ranges vs"
    by (auto simp: request_valid_def split: option.splits)
  from th have vs: "map (py_float L) texts = map Some vs"
    by (simp only: those_eq_Some)
  from ok have lvs: "length vs = length ranges"
    by (simp add: list_all2_lengthD)
  then have l7: "length vs = 7"
    by (simp add: ranges_def)
  have rd: "read_inputs (py_float L) (entries s) = Some (zip field_keys vs)"
    by (rule read_inputs_form [OF form vs len])
  have "\<not> (\<exists>x. x \<in> set (zip ranges vs) \<and> (\<lambda>(r, v). \<not> in_range r v) x)"
    using ok by (auto simp: list_all2_iff)
  then have "find (\<lambda>(r, v). \<not> in_range r v) (zip ranges vs) = None"
    by (simp only: find_None_iff) simp
  then have chk: "check_ranges ranges (zip field_keys vs) = All_in_range"
    using check_ranges_zip [OF lvs] by simp
  have "map snd (zip field_keys vs) = vs"
    using l7 by (simp add: field_keys_def)
  with vs l7 ok rd chk show ?thesis by (rule that)
qed

lemma show_chart_equal_lengths:
  assumes "length probs = length (le_classes s)"
  shows "show_chart probs s = (None, s\<lparr>chart_frame := [zip (le_classes s) probs]\<rparr>)"
  using assms by (simp add: show_chart_def barh_def Let_def)

section \<open>Capitalizing and stripping ASCII text\<close>

lemma upper_lower: "ascii_upper (ascii_lower c) = ascii_upper c"
proof (cases "ascii_isupper c")
  case True
  then have "ascii_islower (char_of ((of_char c :: nat) + 32))"
    by (simp add: ascii_isupper_def ascii_islower_def)
  with True show ?thesis
    by (simp add: ascii_upper_def ascii_lower_def ascii_isupper_def ascii_islower_def)
next
  case False
  then show ?thesis by (simp add: ascii_lower_def)
qed

lemma isspace_lower: "ascii_isspace c \<Longrightarrow> ascii_lower c = c"
  by (auto simp: ascii_isspace_def ascii_lower_def ascii_isupper_def Let_def)

lemma isspace_upper: "ascii_isspace c \<Longrightarrow> ascii_upper c = c"
  by (auto simp: ascii_isspace_def ascii_upper_def ascii_islower_def Let_def)

lemma map_lower_spaces: "list_all ascii_isspace ws \<Longrightarrow> map ascii_lower ws = ws"
  by (induction ws) (simp_all add: isspace_lower)

lemma capitalize_same_letters:
  assumes "same_letters t name"
  shows "ascii_capitalize t = ascii_capitalize name"
proof (cases t)
  case Nil
  with assms show ?thesis by (simp add: same_letters_def)
next
  case (Cons c cs)
  with assms obtain d ds where name: "name = d # ds" and hd: "ascii_lower c = ascii_lower d"
      and tl: "map ascii_lower cs = map ascii_lower ds"
    by (cases name) (auto simp: same_letters_def)
  have "ascii_upper c = ascii_upper d"
    using hd upper_lower [of c] upper_lower [of d] by simp
  with Cons name tl show ?thesis by simp
qed

lemma capitalize_append_spaces:
  assumes "t \<noteq> []" and "list_all ascii_isspace ws"
  shows "ascii_capitalize (t @ ws) = ascii_capitalize t @ ws"
  using assms by (cases t) (simp_all add: map_lower_spaces)

lemma capitalize_leading_space:
  assumes "ws \<noteq> []" and "list_all ascii_isspace ws" and "list_all ascii_isspace ws'"
  shows "ascii_capitalize (ws @ t @ ws') = ws @ map ascii_lower t @ ws'"
  using assms by (cases ws) (simp_all add: map_lower_spaces isspace_upper)

lemma strip_padded:
  assumes "list_all ascii_isspace ws" and "list_all ascii_isspace ws'"
    and "l \<noteq> []" and "\<not> ascii_isspace (hd l)" and "\<not> ascii_isspace (last l)"
  shows "ascii_strip (ws @ l @ ws') = l"
proof -
  have "dropWhile ascii_isspace (ws @ l @ ws') = dropWhile ascii_isspace (l @ ws')"
    using assms(1) by (simp add: list_all_iff dropWhile_append2)
  also have "\<dots> = l @ ws'"
    using assms(3,4) by (cases l) simp_all
  finally have "ascii_strip (ws @ l @ ws') = rev (dropWhile ascii_isspace (rev ws' @ rev l))"
    by (simp add: ascii_strip_def)
  moreover have "dropWhile ascii_isspace (rev ws' @ rev l) = dropWhile ascii_isspace (rev l)"
    using assms(2) by (intro dropWhile_append2) (simp add: list_all_iff)
  moreover have "dropWhile ascii_isspace (rev l) = rev l"
    using assms(3,5) by (cases "rev l") (simp_all add: last_rev [symmetric] hd_rev)
  ultimately show ?thesis by simp
qed

text \<open>Text that is ASCII: whitespace, the crop names, and a crop name in another letter case.\<close>

lemma is_ascii_append: "is_ascii (a @ b) \<longleftrightarrow> is_ascii a \<and> is_ascii b"
  by (simp add: is_ascii_def)

lemma is_ascii_spaces: "list_all ascii_isspace ws \<Longrightarrow> is_ascii ws"
  by (induction ws) (auto simp: is_ascii_def ascii_isspace_def Let_def)

lemma is_ascii_map_lower: "is_ascii s \<Longrightarrow> is_ascii (map ascii_lower s)"
  by (induction s) (auto simp: is_ascii_def ascii_lower_def ascii_isupper_def)

lemma ascii_lower_reflects:
  assumes "ascii_lower c = ascii_lower d" and "(of_char d :: nat) < 128"
  shows "(of_char c :: nat) < 128"
proof (cases "ascii_isupper c")
  case True
  then show ?thesis by (simp add: ascii_isupper_def)
next
  case False
  then have "c = ascii_lower d"
    using assms(1) by (simp add: ascii_lower_def)
  then show ?thesis
    using assms(2) by (auto simp: ascii_lower_def ascii_isupper_def)
qed

lemma is_ascii_same_letters:
  assumes "same_letters t name" and "is_ascii name"
  shows "is_ascii t"
proof -
  from assms(1) have "list_all2 (\<lambda>c d. ascii_lower c = ascii_lower d) t name"
    by (simp add: same_letters_def list_all2_conv_all_nth list_eq_iff_nth_eq)
  then show ?thesis
    using assms(2)
  proof (induction rule: list_all2_induct)
    case Nil
    then show ?case by (simp add: is_ascii_def)
  next
    case (Cons c t d name)
    then show ?case
      using ascii_lower_reflects [of c d] by (simp add: is_ascii_def)
  qed
qed

lemma crop_names_ascii: "\<forall>name\<in>set crop_names. is_ascii name"
  by code_simp

lemma crop_names_capitalized:
  "\<forall>name\<in>set crop_names. ascii_capitalize name = name \<and> name \<noteq> []
      \<and> \<not> ascii_isspace (hd name) \<and> \<not> ascii_isspace (last name)"
  by code_simp

lemma crop_names_lowered:
  "\<forall>name\<in>set crop_names. map ascii_lower name \<noteq> [] \<and> \<not> ascii_isspace (hd (map ascii_lower name))
      \<and> \<not> ascii_isspace (last (map ascii_lower name)) \<and> map_of BASE_INFO (map ascii_lower name) = None"
  by code_simp

lemma crop_names_keys: "\<forall>name\<in>set crop_names. map_of BASE_INFO name \<noteq> None"
  by code_simp

text \<open>What the search looks up when the library keeps its contract on ASCII text.\<close>

lemma lookup_name_trailing:
  assumes cap: "\<forall>x. is_ascii x \<longrightarrow> str_capitalize L x = ascii_capitalize x"
    and strp: "\<forall>x. is_ascii x \<longrightarrow> str_strip L x = ascii_strip x"
    and name: "name \<in> set crop_names" and same: "same_letters t name"
    and ws': "list_all ascii_isspace ws'"
  shows "str_strip L (str_capitalize L (t @ ws')) = name"
proof -
  from name crop_names_capitalized have capn: "ascii_capitalize name = name" and ne: "name \<noteq> []"
      and ends: "\<not> ascii_isspace (hd name)" "\<not> ascii_isspace (last name)"
    by blast+
  from name crop_names_ascii have an: "is_ascii name" by blast
  have at: "is_ascii t"
    by (rule is_ascii_same_letters [OF same an])
  from same ne have "t \<noteq> []"
    by (auto simp: same_letters_def)
  then have c: "ascii_capitalize (t @ ws') = name @ ws'"
    using ws' same capn by (simp add: capitalize_append_spaces capitalize_same_letters)
  have "is_ascii (t @ ws')"
    using at ws' by (simp only: is_ascii_append is_ascii_spaces)
  with cap have "str_capitalize L (t @ ws') = ascii_capitalize (t @ ws')"
    by blast
  then have c': "str_capitalize L (t @ ws') = name @ ws'"
    by (simp only: c)
  have "is_ascii (name @ ws')"
    using an ws' by (simp only: is_ascii_append is_ascii_spaces)
  with strp have s': "str_strip L (name @ ws') = ascii_strip (name @ ws')"
    by blast
  have "ascii_strip ([] @ name @ ws') = name"
    using ws' ne ends by (intro strip_padded) simp_all
  then have "ascii_strip (name @ ws') = name"
    by (simp only: append_Nil)
  with c' s' show ?thesis
    by (simp only:)
qed

lemma lookup_name_leading:
  assumes cap: "\<forall>x. is_ascii x \<longrightarrow> str_capitalize L x = ascii_capitalize x"
    and strp: "\<forall>x. is_ascii x \<longrightarrow> str_strip L x = ascii_strip x"
    and name: "name \<in> set crop_names" and same: "same_letters t name"
    and ws: "list_all ascii_isspace ws" and ws': "list_all ascii_isspace ws'" and lead: "ws \<noteq> []"
  shows "str_strip L (str_capitalize L (ws @ t @ ws')) = map ascii_lower name"
proof -
  from name crop_names_lowered have ne: "map ascii_lower name \<noteq> []"
      and ends: "\<not> ascii_isspace (hd (map ascii_lower name))" "\<not> ascii_isspace (last (map ascii_lower name))"
    by blast+
  from name crop_names_ascii have an: "is_ascii name" by blast
  have at: "is_ascii t"
    by (rule is_ascii_same_letters [OF same an])
  have c: "ascii_capitalize (ws @ t @ ws') = ws @ map ascii_lower name @ ws'"
    using lead ws ws' same by (simp add: capitalize_leading_space same_letters_def)
  have "is_ascii (ws @ t @ ws')"
    using at ws ws' by (simp only: is_ascii_append is_ascii_spaces)
  with cap have "str_capitalize L (ws @ t @ ws') = ascii_capitalize (ws @ t @ ws')"
    by blast
  then have c': "str_capitalize L (ws @ t @ ws') = ws @ map ascii_lower name @ ws'"
    by (simp only: c)
  have "is_ascii (ws @ map ascii_lower name @ ws')"
    using an ws ws' by (simp only: is_ascii_append is_ascii_spaces is_ascii_map_lower)
  with strp have s': "str_strip L (ws @ map ascii_lower name @ ws')
      = ascii_strip (ws @ map ascii_lower name @ ws')"
    by blast
  have "ascii_strip (ws @ map ascii_lower name @ ws') = map ascii_lower name"
    using ws ws' ne ends by (rule strip_padded)
  with c' s' show ?thesis
    by (simp only:)
qed

lemma search_crop_cases:
  "search_crop L picked s =
     (if str_strip L (str_capitalize L (search_var s)) \<in> fst ` set (base_info s)
      then s\<lparr>result_label := [CHR 0xF0, CHR 0x9F, CHR 0x8C, CHR 0xBE] @ '' Information for ''
                  @ str_strip L (str_capitalize L (search_var s)) @ '':'',
             info_text := final_text (base_info s) picked (str_strip L (str_capitalize L (search_var s)))\<rparr>
      else s\<lparr>log := log s @ [Showerror ''Not Found''
                  (''Crop '' @ [CHR 0x27] @ str_strip L (str_capitalize L (search_var s)) @ [CHR 0x27]
                     @ '' not found.'')]\<rparr>)"
  by (simp add: search_crop_def Let_def showerror_def show_crop_info_def sheaf_def map_of_eq_None_iff)

section \<open>The form in every reachable state\<close>

text \<open>
  No operation adds, removes or reorders an entry of the form, so in every state reached
  from startup the entries are the seven keys, in order, each with some text.
\<close>

lemma predict_crop_entries: "entries (snd (predict_crop L picked s)) = entries s"
  by (simp add: predict_crop_def showerror_def show_chart_def show_crop_info_def Let_def
      split: option.splits range_check.splits)

lemma search_crop_entries: "entries (search_crop L picked s) = entries s"
  by (simp add: search_crop_def showerror_def show_crop_info_def Let_def)

lemma step_entries_keys: "map fst (entries (step L ev s)) = map fst (entries s)"
proof (cases ev)
  case (Type_entry k v)
  then show ?thesis by (simp add: comp_def case_prod_beta)
qed (simp_all add: predict_crop_entries search_crop_entries)

lemma run_entries_keys: "map fst (entries (run L evs s)) = map fst (entries s)"
  unfolding run_def by (induction evs arbitrary: s) (simp_all add: step_entries_keys)

lemma reachable_form:
  "\<exists>texts. length texts = 7 \<and> entries (run L evs (startup L data)) = zip field_keys texts"
proof -
  let ?s = "run L evs (startup L data)"
  have keys: "map fst (entries ?s) = field_keys"
    by (simp add: run_entries_keys) (simp add: startup_def Let_def split_def fields_list_def field_keys_def)
  have "length (entries ?s) = length (map fst (entries ?s))"
    by simp
  then have "length (entries ?s) = 7"
    unfolding keys by (simp add: field_keys_def)
  moreover have "entries ?s = zip (map fst (entries ?s)) (map snd (entries ?s))"
    by (simp add: zip_map_fst_snd)
  ultimately show ?thesis
    using keys by (intro exI [of _ "map snd (entries ?s)"]) simp
qed

section \<open>Validation of a request (C1, C2, C3)\<close>

text \<open>
  C1. Let the seven entries hold texts that \<^verbatim>\<open>float\<close> reads as the values
  \<open>n, p, k, t, h, ph, r\<close> (finite, infinite or NaN). Then \<^verbatim>\<open>predict_crop\<close> validates exactly
  this record, its range check passes if and only if each value lies within its inclusive
  range (Nitrogen, Phosphorus and Potassium 0 to 150, Temperature 10 to 40, Humidity 20 to
  90, pH 4 to 9, Rainfall 50 to 300), the operation performs an inference if and only if
  the check passes, and the inference is on this record. The bounds themselves pass, as
  the instances after the theorem show.
\<close>

theorem C1_validation_accepts_iff_in_range:
  assumes "entries s = zip field_keys [a, b, c, d, e, f, g]"
    and "map (py_float L) [a, b, c, d, e, f, g] = map Some [n, p, k, t, h, ph, r]"
  shows "read_inputs (py_float L) (entries s) = Some (zip field_keys [n, p, k, t, h, ph, r])
     \<and> (check_ranges ranges (zip field_keys [n, p, k, t, h, ph, r]) = All_in_range
          \<longleftrightarrow> spec_ranges n p k t h ph r)
     \<and> (list_ex is_inference (effects_since s (snd (predict_crop L picked s)))
          \<longleftrightarrow> spec_ranges n p k t h ph r)
     \<and> (spec_ranges n p k t h ph r \<longrightarrow>
          hd (effects_since s (snd (predict_crop L picked s))) = Predict (model s) [n, p, k, t, h, ph, r])"
proof -
  let ?vs = "[n, p, k, t, h, ph, r]"
  have rd: "read_inputs (py_float L) (entries s) = Some (zip field_keys ?vs)"
    by (rule read_inputs_form [OF assms]) simp
  have chk: "check_ranges ranges (zip field_keys ?vs) =
     (case find (\<lambda>(r, v). \<not> in_range r v) (zip ranges ?vs) of
        None \<Rightarrow> All_in_range
      | Some ((k, lo, hi), v) \<Rightarrow> Out_of_range k lo hi)"
    by (rule check_ranges_zip) (simp add: ranges_def)
  have acc: "check_ranges ranges (zip field_keys ?vs) = All_in_range \<longleftrightarrow> spec_ranges n p k t h ph r"
    unfolding chk find_ranges7 [symmetric] by (auto split: option.splits)
  have vals: "map snd (zip field_keys ?vs) = ?vs"
    by (simp add: field_keys_def)
  show ?thesis
  proof (cases "spec_ranges n p k t h ph r")
    case True
    then have ok: "check_ranges ranges (zip field_keys ?vs) = All_in_range"
      using acc by simp
    have "\<exists>rest. log (snd (predict_crop L picked s)) = log s @ Predict (model s) ?vs # rest"
      using predict_crop_valid_log [OF rd ok, of picked] unfolding vals by auto
    then obtain rest where "log (snd (predict_crop L picked s)) = log s @ Predict (model s) ?vs # rest" ..
    then have "effects_since s (snd (predict_crop L picked s)) = Predict (model s) ?vs # rest"
      by (simp add: effects_since_def)
    with True rd acc show ?thesis by simp
  next
    case False
    then obtain k' lo hi where bad: "check_ranges ranges (zip field_keys ?vs) = Out_of_range k' lo hi"
      using acc unfolding chk by (auto split: option.splits)
    have "effects_since s (snd (predict_crop L picked s)) = [Showerror ''Invalid Input'' (range_message k' lo hi)]"
      by (simp add: predict_crop_out_of_range [OF rd bad] showerror_def effects_since_def)
    with False rd acc show ?thesis by simp
  qed
qed

text \<open>
  Two instances in which every value is on a bound: Nitrogen 0, Phosphorus 150, Potassium 0,
  Temperature 10, Humidity 90, pH 4, Rainfall 300, and the opposite bounds with
  Temperature 40. Both requests reach the classifier.
\<close>

theorem C1_witness:
  "entries (demo_filled [''0'', ''150'', ''0'', ''10'', ''90'', ''4'', ''300''])
     = zip field_keys [''0'', ''150'', ''0'', ''10'', ''90'', ''4'', ''300'']
   \<and> map (py_float demo_lib) [''0'', ''150'', ''0'', ''10'', ''90'', ''4'', ''300'']
     = map Some [Fin 0, Fin 150, Fin 0, Fin 10, Fin 90, Fin 4, Fin 300]
   \<and> list_ex is_inference
        (effects_since (demo_filled [''0'', ''150'', ''0'', ''10'', ''90'', ''4'', ''300''])
          (snd (predict_crop demo_lib [] (demo_filled [''0'', ''150'', ''0'', ''10'', ''90'', ''4'', ''300'']))))
   \<and> entries (demo_filled [''150'', ''0'', ''150'', ''40'', ''20'', ''9'', ''50''])
     = zip field_keys [''150'', ''0'', ''150'', ''40'', ''20'', ''9'', ''50'']
   \<and> map (py_float demo_lib) [''150'', ''0'', ''150'', ''40'', ''20'', ''9'', ''50'']
     = map Some [Fin 150, Fin 0, Fin 150, Fin 40, Fin 20, Fin 9, Fin 50]
   \<and> list_ex is_inference
        (effects_since (demo_filled [''150'', ''0'', ''150'', ''40'', ''20'', ''9'', ''50''])
          (snd (predict_crop demo_lib [] (demo_filled [''150'', ''0'', ''150'', ''40'', ''20'', ''9'', ''50'']))))"
proof -
  have h1: "entries (demo_filled [''0'', ''150'', ''0'', ''10'', ''90'', ''4'', ''300''])
     = zip field_keys [''0'', ''150'', ''0'', ''10'', ''90'', ''4'', ''300'']"
    by code_simp
  have h2: "map (py_float demo_lib) [''0'', ''150'', ''0'', ''10'', ''90'', ''4'', ''300'']
     = map Some [Fin 0, Fin 150, Fin 0, Fin 10, Fin 90, Fin 4, Fin 300]"
    by code_simp
  have h3: "spec_ranges (Fin 0) (Fin 150) (Fin 0) (Fin 10) (Fin 90) (Fin 4) (Fin 300)"
    by (simp add: spec_ranges_def)
  have g1: "entries (demo_filled [''150'', ''0'', ''150'', ''40'', ''20'', ''9'', ''50''])
     = zip field_keys [''150'', ''0'', ''150'', ''40'', ''20'', ''9'', ''50'']"
    by code_simp
  have g2: "map (py_float demo_lib) [''150'', ''0'', ''150'', ''40'', ''20'', ''9'', ''50'']
     = map Some [Fin 150, Fin 0, Fin 150, Fin 40, Fin 20, Fin 9, Fin 50]"
    by code_simp
  have g3: "spec_ranges (Fin 150) (Fin 0) (Fin 150) (Fin 40) (Fin 20) (Fin 9) (Fin 50)"
    by (simp add: spec_ranges_def)
  from C1_validation_accepts_iff_in_range [OF h1 h2, of "[]"] h3
  have r1: "list_ex is_inference
        (effects_since (demo_filled [''0'', ''150'', ''0'', ''10'', ''90'', ''4'', ''300''])
          (snd (predict_crop demo_lib [] (demo_filled [''0'', ''150'', ''0'', ''10'', ''90'', ''4'', ''300'']))))"
    by blast
  from C1_validation_accepts_iff_in_range [OF g1 g2, of "[]"] g3
  have r2: "list_ex is_inference
        (effects_since (demo_filled [''150'', ''0'', ''150'', ''40'', ''20'', ''9'', ''50''])
          (snd (predict_crop demo_lib [] (demo_filled [''150'', ''0'', ''150'', ''40'', ''20'', ''9'', ''50'']))))"
    by blast
  from h1 h2 r1 g1 g2 r2 show ?thesis
    by blast
qed

text \<open>
  C2, as the code has it. A request whose texts are not all numeric, or whose values are
  not all within range, gets exactly one dialog titled \<^verbatim>\<open>Invalid Input\<close>, and
  \<^verbatim>\<open>predict_crop\<close> returns with nothing else changed. When some text is not numeric the
  message is the fixed sentence \<^verbatim>\<open>Please enter numeric values for all fields.\<close>, which
  names no field and no range. When all texts are numeric the message names a field whose
  value is out of range, with the two bounds of that field.
\<close>

theorem C2_invalid_request_one_dialog:
  assumes "entries s = zip field_keys texts" and "length texts = 7"
    and "\<not> request_valid L texts"
  shows "(None \<in> set (map (py_float L) texts) \<longrightarrow>
            predict_crop L picked s =
              (None, s\<lparr>log := log s @
                 [Showerror ''Invalid Input'' ''Please enter numeric values for all fields.'']\<rparr>))
       \<and> (\<forall>vs. map (py_float L) texts = map Some vs \<longrightarrow>
            (\<exists>k lo hi v. ((k, lo, hi), v) \<in> set (zip ranges vs) \<and> \<not> lies_within lo hi v
               \<and> predict_crop L picked s =
                   (None, s\<lparr>log := log s @
                      [Showerror ''Invalid Input''
                         (k @ '' must be between '' @ str_int lo @ '' and '' @ str_int hi @ ''.'')]\<rparr>)))"
  using assms
proof (cases rule: invalid_request_cases)
  case non_numeric
  have "map (py_float L) texts \<noteq> map Some vs" for vs
  proof
    assume "map (py_float L) texts = map Some vs"
    with non_numeric(1) have "None \<in> set (map Some vs)" by (simp only:)
    then show False by auto
  qed
  with non_numeric show ?thesis
    by (simp add: predict_crop_nonnumeric showerror_def)
next
  case (out_of_range vs k lo hi v)
  have numeric: "None \<notin> set (map (py_float L) texts)"
    unfolding out_of_range(1) by auto
  have same: "ws = vs" if "map (py_float L) texts = map Some ws" for ws
    using that out_of_range(1) by simp
  have res: "predict_crop L picked s =
      (None, s\<lparr>log := log s @
         [Showerror ''Invalid Input''
            (k @ '' must be between '' @ str_int lo @ '' and '' @ str_int hi @ ''.'')]\<rparr>)"
    using out_of_range(2,3) by (simp add: predict_crop_out_of_range showerror_def range_message_def)
  show ?thesis
  proof (intro conjI impI allI)
    assume "None \<in> set (map (py_float L) texts)"
    with numeric show "predict_crop L picked s =
        (None, s\<lparr>log := log s @
           [Showerror ''Invalid Input'' ''Please enter numeric values for all fields.'']\<rparr>)"
      by contradiction
  next
    fix ws
    assume "map (py_float L) texts = map Some ws"
    then have "ws = vs" by (rule same)
    with out_of_range(4,5) res
    show "\<exists>k lo hi v. ((k, lo, hi), v) \<in> set (zip ranges ws) \<and> \<not> lies_within lo hi v
        \<and> predict_crop L picked s =
            (None, s\<lparr>log := log s @
               [Showerror ''Invalid Input''
                  (k @ '' must be between '' @ str_int lo @ '' and '' @ str_int hi @ ''.'')]\<rparr>)"
      by blast
  qed
qed

text \<open>
  C2 as stated fails: with \<^verbatim>\<open>abc\<close> in the Nitrogen entry, \<^verbatim>\<open>float\<close> raises ValueError and
  the one dialog shown carries the fixed sentence, in which no field's key occurs.
\<close>

theorem C2_counterexample:
  "py_float demo_lib ''abc'' = None
   \<and> effects_since (demo_filled [''abc'', ''50'', ''50'', ''20'', ''50'', ''6'', ''100''])
        (snd (predict_crop demo_lib [] (demo_filled [''abc'', ''50'', ''50'', ''20'', ''50'', ''6'', ''100''])))
       = [Showerror ''Invalid Input'' ''Please enter numeric values for all fields.'']
   \<and> \<not> names_a_field ''Please enter numeric values for all fields.''"
proof (intro conjI)
  show "py_float demo_lib ''abc'' = None"
    by code_simp
  show "effects_since (demo_filled [''abc'', ''50'', ''50'', ''20'', ''50'', ''6'', ''100''])
        (snd (predict_crop demo_lib [] (demo_filled [''abc'', ''50'', ''50'', ''20'', ''50'', ''6'', ''100''])))
       = [Showerror ''Invalid Input'' ''Please enter numeric values for all fields.'']"
    by code_simp
  show "\<not> names_a_field ''Please enter numeric values for all fields.''"
    by code_simp
qed

text \<open>An instance: Temperature 50 with every other field in range.\<close>

theorem C2_witness:
  "entries (demo_filled [''50'', ''50'', ''50'', ''50'', ''50'', ''6'', ''100''])
     = zip field_keys [''50'', ''50'', ''50'', ''50'', ''50'', ''6'', ''100'']
   \<and> length [''50'', ''50'', ''50'', ''50'', ''50'', ''6'', ''100''] = 7
   \<and> \<not> request_valid demo_lib [''50'', ''50'', ''50'', ''50'', ''50'', ''6'', ''100'']
   \<and> (\<exists>k lo hi v. ((k, lo, hi), v) \<in> set (zip ranges [Fin 50, Fin 50, Fin 50, Fin 50, Fin 50, Fin 6, Fin 100])
         \<and> \<not> lies_within lo hi v
         \<and> predict_crop demo_lib [] (demo_filled [''50'', ''50'', ''50'', ''50'', ''50'', ''6'', ''100'']) =
             (None, (demo_filled [''50'', ''50'', ''50'', ''50'', ''50'', ''6'', ''100''])
                \<lparr>log := log (demo_filled [''50'', ''50'', ''50'', ''50'', ''50'', ''6'', ''100'']) @
                  [Showerror ''Invalid Input''
                     (k @ '' must be between '' @ str_int lo @ '' and '' @ str_int hi @ ''.'')]\<rparr>))
   \<and> effects_since (demo_filled [''50'', ''50'', ''50'', ''50'', ''50'', ''6'', ''100''])
        (snd (predict_crop demo_lib [] (demo_filled [''50'', ''50'', ''50'', ''50'', ''50'', ''6'', ''100''])))
       = [Showerror ''Invalid Input'' ''Temperature must be between 10 and 40.'']"
proof -
  let ?T = "[''50'', ''50'', ''50'', ''50'', ''50'', ''6'', ''100'']"
  have h1: "entries (demo_filled ?T) = zip field_keys ?T"
    by code_simp
  have h2: "length ?T = 7"
    by simp
  have h3: "\<not> request_valid demo_lib ?T"
    by code_simp
  have h4: "map (py_float demo_lib) ?T = map Some [Fin 50, Fin 50, Fin 50, Fin 50, Fin 50, Fin 6, Fin 100]"
    by code_simp
  have h5: "effects_since (demo_filled ?T) (snd (predict_crop demo_lib [] (demo_filled ?T)))
       = [Showerror ''Invalid Input'' ''Temperature must be between 10 and 40.'']"
    by code_simp
  from C2_invalid_request_one_dialog [OF h1 h2 h3, of "[]"] h4 h1 h2 h3 h5 show ?thesis
    by blast
qed

text \<open>
  C3. Validation comes first: on a request that fails it (a text that is not numeric, or a
  value out of range) \<^verbatim>\<open>predict_crop\<close> returns without an exception, performs no
  inference, and leaves the result label, the guide text and the chart as they were.
\<close>

theorem C3_invalid_request_changes_nothing:
  assumes "entries s = zip field_keys texts" and "length texts = 7"
    and "\<not> request_valid L texts"
  shows "fst (predict_crop L picked s) = None
     \<and> \<not> list_ex is_inference (effects_since s (snd (predict_crop L picked s)))
     \<and> result_label (snd (predict_crop L picked s)) = result_label s
     \<and> info_text (snd (predict_crop L picked s)) = info_text s
     \<and> chart_frame (snd (predict_crop L picked s)) = chart_frame s"
  using assms
proof (cases rule: invalid_request_cases)
  case non_numeric
  then show ?thesis
    by (simp add: predict_crop_nonnumeric showerror_def effects_since_def)
next
  case (out_of_range vs k lo hi v)
  then show ?thesis
    by (simp add: predict_crop_out_of_range showerror_def effects_since_def)
qed

text \<open>An instance: Humidity 95.\<close>

theorem C3_witness:
  "entries (demo_filled [''50'', ''50'', ''50'', ''20'', ''95'', ''6'', ''100''])
     = zip field_keys [''50'', ''50'', ''50'', ''20'', ''95'', ''6'', ''100'']
   \<and> length [''50'', ''50'', ''50'', ''20'', ''95'', ''6'', ''100''] = 7
   \<and> \<not> request_valid demo_lib [''50'', ''50'', ''50'', ''20'', ''95'', ''6'', ''100'']
   \<and> \<not> list_ex is_inference
        (effects_since (demo_filled [''50'', ''50'', ''50'', ''20'', ''95'', ''6'', ''100''])
          (snd (predict_crop demo_lib [] (demo_filled [''50'', ''50'', ''50'', ''20'', ''95'', ''6'', ''100'']))))
   \<and> chart_frame (snd (predict_crop demo_lib [] (demo_filled [''50'', ''50'', ''50'', ''20'', ''95'', ''6'', ''100''])))
       = chart_frame (demo_filled [''50'', ''50'', ''50'', ''20'', ''95'', ''6'', ''100''])"
proof -
  let ?T = "[''50'', ''50'', ''50'', ''20'', ''95'', ''6'', ''100'']"
  have h1: "entries (demo_filled ?T) = zip field_keys ?T"
    by code_simp
  have h2: "length ?T = 7"
    by simp
  have h3: "\<not> request_valid demo_lib ?T"
    by code_simp
  from C3_invalid_request_changes_nothing [OF h1 h2 h3, of "[]"] h1 h2 h3 show ?thesis
    by blast
qed

section \<open>The knowledge table (C4, C5)\<close>

text \<open>
  C4. The knowledge table has exactly the eight crop names as its keys, each once. For
  every one of them the lookup \<^verbatim>\<open>BASE_INFO.get\<close> returns an entry whose headings are
  exactly Cultivation, Water, Pests, Harvest, Fertilizer, Soil and Climate, in this order,
  and the text under every heading is not empty.
\<close>

theorem C4_knowledge_table_complete:
  "map fst BASE_INFO = crop_names
   \<and> crop_names = [''Rice'', ''Wheat'', ''Maize'', ''Cotton'', ''Sugarcane'', ''Barley'', ''Pulses'', ''Coffee'']
   \<and> distinct crop_names
   \<and> headings = [''Cultivation'', ''Water'', ''Pests'', ''Harvest'', ''Fertilizer'', ''Soil'', ''Climate'']
   \<and> (\<forall>crop\<in>set crop_names.
         map fst (base_get BASE_INFO crop) = headings
         \<and> (\<forall>(heading, text)\<in>set (base_get BASE_INFO crop). text \<noteq> []))"
proof -
  have "distinct crop_names"
    by (simp add: crop_names_def)
  with BASE_INFO_keys BASE_INFO_headings BASE_INFO_texts show ?thesis
    by (simp add: crop_names_def headings_def)
qed

text \<open>
  An instance: Coffee is a key, its entry has the seven headings, and its Harvest text is
  the one of the source.
\<close>

theorem C4_witness:
  "''Coffee'' \<in> set crop_names
   \<and> map fst (base_get BASE_INFO ''Coffee'') = headings
   \<and> (''Harvest'', ''Pick ripe red cherries by hand.'') \<in> set (base_get BASE_INFO ''Coffee'')
   \<and> ''Pick ripe red cherries by hand.'' \<noteq> []"
proof -
  have h1: "''Coffee'' \<in> set crop_names"
    by (simp add: crop_names_def)
  have h2: "(''Harvest'', ''Pick ripe red cherries by hand.'') \<in> set (base_get BASE_INFO ''Coffee'')"
    by code_simp
  from C4_knowledge_table_complete h1 h2 show ?thesis
    by blast
qed

text \<open>
  C5. The knowledge table is a global that startup sets to the literal of the source. No
  operation (predict, search, info render, chart render) changes it, so after any sequence
  of events it still is that literal.
\<close>

theorem C5_knowledge_table_never_mutated:
  "base_info (startup L data) = BASE_INFO
   \<and> base_info (snd (predict_crop L picked s)) = base_info s
   \<and> base_info (search_crop L picked s) = base_info s
   \<and> base_info (show_crop_info picked crop inputs s) = base_info s
   \<and> base_info (snd (show_chart probs s)) = base_info s
   \<and> base_info (run L evs s) = base_info s
   \<and> base_info (run L evs (startup L data)) = BASE_INFO"
  by (simp add: startup_globals predict_crop_globals search_crop_globals show_crop_info_globals
      show_chart_globals run_globals)

text \<open>
  An instance: the table after the session \<open>demo_events\<close>.
\<close>

theorem C5_witness:
  "base_info (run demo_lib demo_events (startup demo_lib demo_data)) = BASE_INFO"
  using C5_knowledge_table_never_mutated [of demo_lib demo_data] by blast

section \<open>The classifier (C6, C7, C8)\<close>

text \<open>
  C6. Take a state reached from startup and a valid request. Let the libraries keep their
  contracts: the crop column is drawn from the eight names (\<^verbatim>\<open>np.random.choice\<close>), the
  training rows are rows of the frame (\<^verbatim>\<open>train_test_split\<close>), and the classifier answers
  with a label it was trained on (\<^verbatim>\<open>predict\<close>). Then \<^verbatim>\<open>inverse_transform\<close> does not
  raise, the predicted crop is one of the eight names, it is a key of the knowledge table,
  its entry has the seven headings, and the guide that is shown is the one of this crop.
\<close>

theorem C6_predicted_crop_is_table_key:
  assumes drawn: "set (map snd data) \<subseteq> set crop_names"
    and split: "set (fst (train_test_split L (labelled data))) \<subseteq> set (labelled data)"
    and pred: "\<forall>arr. predict L (fit L (training_rows L data)) arr \<in> snd ` set (training_rows L data)"
    and reach: "s = run L evs (startup L data)"
    and form: "entries s = zip field_keys texts" and len: "length texts = 7"
    and valid: "request_valid L texts"
  shows "\<exists>vs crop. map (py_float L) texts = map Some vs
     \<and> inverse_transform (le_classes s) (predict L (model s) vs) = Some crop
     \<and> crop \<in> set crop_names
     \<and> map_of (base_info s) crop \<noteq> None
     \<and> map fst (base_get (base_info s) crop) = headings
     \<and> fst (predict_crop L picked s) \<noteq> Some (ValueError ''y contains previously unseen labels'')
     \<and> (predict_proba L (model s) vs \<noteq> [] \<longrightarrow>
          info_text (snd (predict_crop L picked s)) = final_text BASE_INFO picked crop
          \<and> result_label (snd (predict_crop L picked s)) =
              recommended_text crop (fmt2f L (fmul L (Max (set (predict_proba L (model s) vs))) 100)))"
proof -
  from form len valid obtain vs where vs: "map (py_float L) texts = map Some vs"
      and rd: "read_inputs (py_float L) (entries s) = Some (zip field_keys vs)"
      and chk: "check_ranges ranges (zip field_keys vs) = All_in_range"
      and vals: "map snd (zip field_keys vs) = vs"
    by (rule valid_request_inputs)
  have m: "model s = fit L (training_rows L data)"
    and cl: "le_classes s = le_fit (map snd data)"
    and bi: "base_info s = BASE_INFO"
    by (simp_all add: reach run_globals startup_globals)
  from pred obtain x where "(x, predict L (model s) vs) \<in> set (training_rows L data)"
    unfolding m by force
  with split have "(x, predict L (model s) vs) \<in> set (labelled data)"
    by (auto simp: training_rows_def)
  then obtain crop where crop: "crop \<in> set (map snd data)"
      and inv: "inverse_transform (le_classes s) (predict L (model s) vs) = Some crop"
    unfolding cl using labelled_label by blast
  from crop drawn have known: "crop \<in> set crop_names" by blast
  then have "crop \<in> fst ` set BASE_INFO"
    using BASE_INFO_keys by (metis list.set_map)
  then have key: "map_of (base_info s) crop \<noteq> None"
    by (simp add: bi map_of_eq_None_iff)
  have hd: "map fst (base_get (base_info s) crop) = headings"
    using known BASE_INFO_headings by (simp add: bi)
  have inv': "inverse_transform (le_classes s) (predict L (model s) (map snd (zip field_keys vs))) = Some crop"
    using inv by (simp only: vals)
  have noerr: "fst (predict_crop L picked s) \<noteq> Some (ValueError ''y contains previously unseen labels'')"
    using rd chk inv'
    by (simp add: predict_crop_def Let_def show_chart_def split: option.splits)
  have rendered: "info_text (snd (predict_crop L picked s)) = final_text BASE_INFO picked crop
      \<and> result_label (snd (predict_crop L picked s)) =
          recommended_text crop (fmt2f L (fmul L (Max (set (predict_proba L (model s) vs))) 100))"
    if "predict_proba L (model s) vs \<noteq> []"
  proof -
    from that have "np_max (predict_proba L (model s) (map snd (zip field_keys vs)))
        = Some (Max (set (predict_proba L (model s) vs)))"
      by (simp add: vals np_max_Max)
    from predict_crop_valid_state [OF rd chk inv' this, of picked] show ?thesis
      by (simp add: show_chart_widgets show_crop_info_def bi)
  qed
  from vs inv known key hd noerr rendered show ?thesis by blast
qed

text \<open>
  An instance with the stand-in libraries, whose classifier answers class 3, Maize.
\<close>

theorem C6_witness:
  "set (map snd demo_data) \<subseteq> set crop_names
   \<and> set (fst (train_test_split demo_lib (labelled demo_data))) \<subseteq> set (labelled demo_data)
   \<and> (\<forall>arr. predict demo_lib (fit demo_lib (training_rows demo_lib demo_data)) arr
          \<in> snd ` set (training_rows demo_lib demo_data))
   \<and> entries (demo_filled [''50'', ''50'', ''50'', ''20'', ''50'', ''6'', ''100''])
       = zip field_keys [''50'', ''50'', ''50'', ''20'', ''50'', ''6'', ''100'']
   \<and> request_valid demo_lib [''50'', ''50'', ''50'', ''20'', ''50'', ''6'', ''100'']
   \<and> (\<exists>vs crop. map (py_float demo_lib) [''50'', ''50'', ''50'', ''20'', ''50'', ''6'', ''100''] = map Some vs
         \<and> inverse_transform (le_classes (demo_filled [''50'', ''50'', ''50'', ''20'', ''50'', ''6'', ''100'']))
              (predict demo_lib (model (demo_filled [''50'', ''50'', ''50'', ''20'', ''50'', ''6'', ''100''])) vs) = Some crop
         \<and> crop \<in> set crop_names
         \<and> map_of (base_info (demo_filled [''50'', ''50'', ''50'', ''20'', ''50'', ''6'', ''100''])) crop \<noteq> None)
   \<and> inverse_transform (le_classes (demo_filled [''50'', ''50'', ''50'', ''20'', ''50'', ''6'', ''100'']))
        (predict demo_lib (model (demo_filled [''50'', ''50'', ''50'', ''20'', ''50'', ''6'', ''100'']))
           [Fin 50, Fin 50, Fin 50, Fin 20, Fin 50, Fin 6, Fin 100]) = Some ''Maize''"
proof -
  let ?T = "[''50'', ''50'', ''50'', ''20'', ''50'', ''6'', ''100'']"
  have h1: "set (map snd demo_data) \<subseteq> set crop_names"
    by code_simp
  have h2: "set (fst (train_test_split demo_lib (labelled demo_data))) \<subseteq> set (labelled demo_data)"
    by (simp add: demo_lib_def set_take_subset)
  have "3 \<in> snd ` set (training_rows demo_lib demo_data)"
    by code_simp
  then have h3: "\<forall>arr. predict demo_lib (fit demo_lib (training_rows demo_lib demo_data)) arr
      \<in> snd ` set (training_rows demo_lib demo_data)"
    by (simp add: demo_lib_def)
  have h4: "demo_filled ?T = run demo_lib (type_form ?T) (startup demo_lib demo_data)"
    by (simp add: demo_filled_def)
  have h5: "entries (demo_filled ?T) = zip field_keys ?T"
    by code_simp
  have h6: "length ?T = 7"
    by simp
  have h7: "request_valid demo_lib ?T"
    by code_simp
  have h8: "inverse_transform (le_classes (demo_filled ?T))
        (predict demo_lib (model (demo_filled ?T)) [Fin 50, Fin 50, Fin 50, Fin 20, Fin 50, Fin 6, Fin 100])
      = Some ''Maize''"
    by code_simp
  from C6_predicted_crop_is_table_key [OF h1 h2 h3 h4 h5 h6 h7, of "[]"] h1 h2 h3 h5 h7 h8
  show ?thesis
    by blast
qed

text \<open>
  C7. Startup fits the classifier on the training part of the generated data, and that is
  the only fit of a run: after any sequence of events the global \<^verbatim>\<open>model\<close> is the
  classifier startup built, the log holds exactly one fit, the first effect of startup, and
  every inference in the log ran on that classifier. The generated data and the library's
  fit are parameters here.
\<close>

theorem C7_classifier_built_once_never_changed:
  "model (startup L data) = fit L (training_rows L data)
   \<and> model (run L evs (startup L data)) = model (startup L data)
   \<and> filter is_fit (log (run L evs (startup L data))) = [Fit (training_rows L data)]
   \<and> (\<forall>e\<in>set (log (run L evs (startup L data))).
        classifier_of e = None \<or> classifier_of e = Some (fit L (training_rows L data)))"
proof -
  obtain new where new: "log (run L evs (startup L data)) = log (startup L data) @ new"
      "later_effects_ok (model (startup L data)) new"
    using run_appends by blast
  have nofit: "filter is_fit new = []"
    using new(2) by (auto simp: later_effects_ok_def list_all_iff filter_empty_conv)
  have cls: "\<forall>e\<in>set new. classifier_of e = None \<or> classifier_of e = Some (fit L (training_rows L data))"
    using new(2) by (auto simp: later_effects_ok_def list_all_iff startup_globals)
  show ?thesis
    using nofit cls by (simp add: new(1) startup_globals run_globals)
qed

text \<open>
  An instance: the inference of the valid request of \<open>demo_events\<close> is in the log and
  ran on the classifier of startup.
\<close>

theorem C7_witness:
  "Predict (model (startup demo_lib demo_data)) [Fin 50, Fin 50, Fin 50, Fin 20, Fin 50, Fin 6, Fin 100]
      \<in> set (log (run demo_lib demo_events (startup demo_lib demo_data)))
   \<and> classifier_of (Predict (model (startup demo_lib demo_data)) [Fin 50, Fin 50, Fin 50, Fin 20, Fin 50, Fin 6, Fin 100])
       = Some (fit demo_lib (training_rows demo_lib demo_data))
   \<and> filter is_fit (log (run demo_lib demo_events (startup demo_lib demo_data)))
       = [Fit (training_rows demo_lib demo_data)]"
proof -
  have mem: "Predict (model (startup demo_lib demo_data)) [Fin 50, Fin 50, Fin 50, Fin 20, Fin 50, Fin 6, Fin 100]
      \<in> set (log (run demo_lib demo_events (startup demo_lib demo_data)))"
    by code_simp
  from C7_classifier_built_once_never_changed [of demo_lib demo_data demo_events] mem show ?thesis
    by auto
qed

text \<open>
  C8. Take a state reached from startup and a valid request whose values are \<open>vs\<close>, and
  call \<open>crop\<close> the class of the classifier's label. Three hypotheses are contracts of the
  libraries: the crop column is drawn from the eight names, the training rows are rows of
  the frame, and \<^verbatim>\<open>predict_proba\<close> returns one probability per label seen in training.
  Two are facts of the generated data and of its split, which the source fixes by its
  seeds and which the model takes as given: every one of the eight names is drawn, and
  every label of the frame occurs in the training part. Then \<^verbatim>\<open>predict_crop\<close> returns
  without an exception after one \<^verbatim>\<open>predict\<close> and one \<^verbatim>\<open>predict_proba\<close> on \<open>vs\<close>, the chart
  frame holds one chart of eight bars, the bar of position \<open>i\<close> being the class of position
  \<open>i\<close> with the probability of position \<open>i\<close>, and the label reads
  \<^verbatim>\<open>Recommended Crop: <crop>    Confidence: <c>%\<close> (after the herb sign, and with the
  check mark before \<^verbatim>\<open>Confidence\<close>), where \<open>c\<close> is the \<^verbatim>\<open>.2f\<close> format of the product of the
  maximum of the probabilities and 100.
\<close>

theorem C8_chart_and_confidence:
  assumes drawn: "set (map snd data) \<subseteq> set crop_names"
    and split: "set (fst (train_test_split L (labelled data))) \<subseteq> set (labelled data)"
    and proba: "\<forall>arr. length (predict_proba L (fit L (training_rows L data)) arr)
        = card (snd ` set (training_rows L data))"
    and all_drawn: "set crop_names \<subseteq> set (map snd data)"
    and all_trained: "snd ` set (labelled data) \<subseteq> snd ` set (training_rows L data)"
    and reach: "s = run L evs (startup L data)"
    and form: "entries s = zip field_keys texts" and len: "length texts = 7"
    and valid: "request_valid L texts"
    and vs: "map (py_float L) texts = map Some vs"
    and label: "inverse_transform (le_classes s) (predict L (model s) vs) = Some crop"
  shows "le_classes s = sorted_crop_names
     \<and> fst (predict_crop L picked s) = None
     \<and> effects_since s (snd (predict_crop L picked s)) = [Predict (model s) vs, Predict_proba (model s) vs]
     \<and> chart_frame (snd (predict_crop L picked s)) = [zip sorted_crop_names (predict_proba L (model s) vs)]
     \<and> length (zip sorted_crop_names (predict_proba L (model s) vs)) = 8
     \<and> map fst (zip sorted_crop_names (predict_proba L (model s) vs)) = sorted_crop_names
     \<and> map snd (zip sorted_crop_names (predict_proba L (model s) vs)) = predict_proba L (model s) vs
     \<and> result_label (snd (predict_crop L picked s)) =
         [CHR 0xF0, CHR 0x9F, CHR 0x8C, CHR 0xBF] @ '' Recommended Crop: '' @ crop @ ''    ''
           @ [CHR 0xE2, CHR 0x9C, CHR 0x85] @ '' Confidence: ''
           @ fmt2f L (fmul L (Max (set (predict_proba L (model s) vs))) 100) @ ''%''"
proof -
  let ?probs = "predict_proba L (model s) vs"
  from form len valid obtain ws where ws: "map (py_float L) texts = map Some ws"
      and rd: "read_inputs (py_float L) (entries s) = Some (zip field_keys ws)"
      and chk: "check_ranges ranges (zip field_keys ws) = All_in_range"
      and vals: "map snd (zip field_keys ws) = ws"
    by (rule valid_request_inputs)
  from vs ws have eq: "ws = vs"
    by simp
  note rd = rd [unfolded eq] and chk = chk [unfolded eq] and vals = vals [unfolded eq]
  from drawn all_drawn have col: "set (map snd data) = set crop_names"
    by (rule subset_antisym)
  have m: "model s = fit L (training_rows L data)"
    by (simp add: reach run_globals startup_globals)
  have cl: "le_classes s = sorted_crop_names"
    using col by (simp add: reach run_globals startup_globals le_fit_all_drawn)
  have "snd ` set (training_rows L data) = snd ` set (labelled data)"
    using split all_trained by (auto simp: training_rows_def)
  also have "\<dots> = le_transform sorted_crop_names ` set crop_names"
    using col by (simp add: labelled_codes le_fit_all_drawn)
  finally have "card (snd ` set (training_rows L data)) = 8"
    by (simp only: crop_codes)
  then have l8: "length ?probs = 8"
    using proba by (simp add: m)
  then have ne: "?probs \<noteq> []" by auto
  have proba': "length ?probs = length (le_classes s)"
    using l8 by (simp add: cl sorted_crop_names_def)
  have mx: "np_max (predict_proba L (model s) (map snd (zip field_keys vs))) = Some (Max (set ?probs))"
    using ne by (simp add: vals np_max_Max)
  have inv: "inverse_transform (le_classes s) (predict L (model s) (map snd (zip field_keys vs))) = Some crop"
    using label by (simp add: vals)
  have res: "predict_crop L picked s =
      (None, s\<lparr>log := log s @ [Predict (model s) vs, Predict_proba (model s) vs],
         result_label := recommended_text crop (fmt2f L (fmul L (Max (set ?probs)) 100)),
         info_text := final_text (base_info s) picked crop,
         chart_frame := [zip sorted_crop_names ?probs]\<rparr>)"
    unfolding predict_crop_valid_state [OF rd chk inv mx]
    using proba' by (simp add: vals show_crop_info_def show_chart_equal_lengths cl)
  have len8: "length (zip sorted_crop_names ?probs) = 8"
    using l8 by (simp add: sorted_crop_names_def)
  have fsts: "map fst (zip sorted_crop_names ?probs) = sorted_crop_names"
    using l8 by (simp add: sorted_crop_names_def)
  have snds: "map snd (zip sorted_crop_names ?probs) = ?probs"
    using l8 by (simp add: sorted_crop_names_def)
  show ?thesis
    using cl len8 fsts snds
    by (simp add: res effects_since_def recommended_text_def herb_def check_mark_def)
qed

text \<open>
  An instance with the stand-in libraries: all eight names are in the training part, the
  chart has eight bars, the maximum is 3/10 and the crop is Maize.
\<close>

theorem C8_witness:
  "set (map snd demo_data) \<subseteq> set crop_names
   \<and> set (fst (train_test_split demo_lib (labelled demo_data))) \<subseteq> set (labelled demo_data)
   \<and> (\<forall>arr. length (predict_proba demo_lib (fit demo_lib (training_rows demo_lib demo_data)) arr)
          = card (snd ` set (training_rows demo_lib demo_data)))
   \<and> set crop_names \<subseteq> set (map snd demo_data)
   \<and> snd ` set (labelled demo_data) \<subseteq> snd ` set (training_rows demo_lib demo_data)
   \<and> entries (demo_filled [''50'', ''50'', ''50'', ''20'', ''50'', ''6'', ''100''])
       = zip field_keys [''50'', ''50'', ''50'', ''20'', ''50'', ''6'', ''100'']
   \<and> request_valid demo_lib [''50'', ''50'', ''50'', ''20'', ''50'', ''6'', ''100'']
   \<and> map (py_float demo_lib) [''50'', ''50'', ''50'', ''20'', ''50'', ''6'', ''100'']
       = map Some [Fin 50, Fin 50, Fin 50, Fin 20, Fin 50, Fin 6, Fin 100]
   \<and> chart_frame (snd (predict_crop demo_lib [] (demo_filled [''50'', ''50'', ''50'', ''20'', ''50'', ''6'', ''100''])))
       = [zip sorted_crop_names [1 / 10, 1 / 10, 1 / 10, 3 / 10, 1 / 10, 1 / 10, 1 / 10, 1 / 10]]
   \<and> result_label (snd (predict_crop demo_lib [] (demo_filled [''50'', ''50'', ''50'', ''20'', ''50'', ''6'', ''100''])))
       = [CHR 0xF0, CHR 0x9F, CHR 0x8C, CHR 0xBF] @ '' Recommended Crop: Maize    ''
           @ [CHR 0xE2, CHR 0x9C, CHR 0x85] @ '' Confidence: ''
           @ fmt2f demo_lib (fmul demo_lib (3 / 10) 100) @ ''%''"
proof -
  let ?T = "[''50'', ''50'', ''50'', ''20'', ''50'', ''6'', ''100'']"
  let ?V = "[Fin 50, Fin 50, Fin 50, Fin 20, Fin 50, Fin 6, Fin 100]"
  have d1: "set (map snd demo_data) \<subseteq> set crop_names"
    by code_simp
  have d2: "set (fst (train_test_split demo_lib (labelled demo_data))) \<subseteq> set (labelled demo_data)"
    by (simp add: demo_lib_def set_take_subset)
  have "card (snd ` set (training_rows demo_lib demo_data)) = 8"
    by code_simp
  then have d3: "\<forall>arr. length (predict_proba demo_lib (fit demo_lib (training_rows demo_lib demo_data)) arr)
      = card (snd ` set (training_rows demo_lib demo_data))"
    by (simp add: demo_lib_def)
  have d4: "set crop_names \<subseteq> set (map snd demo_data)"
    by code_simp
  have d5: "snd ` set (labelled demo_data) \<subseteq> snd ` set (training_rows demo_lib demo_data)"
    by code_simp
  have h2: "demo_filled ?T = run demo_lib (type_form ?T) (startup demo_lib demo_data)"
    by (simp add: demo_filled_def)
  have h3: "entries (demo_filled ?T) = zip field_keys ?T"
    by code_simp
  have h4: "length ?T = 7"
    by simp
  have h5: "request_valid demo_lib ?T"
    by code_simp
  have h6: "map (py_float demo_lib) ?T = map Some ?V"
    by code_simp
  have h7: "inverse_transform (le_classes (demo_filled ?T)) (predict demo_lib (model (demo_filled ?T)) ?V)
      = Some ''Maize''"
    by code_simp
  have p: "predict_proba demo_lib (model (demo_filled ?T)) ?V
      = [1 / 10, 1 / 10, 1 / 10, 3 / 10, 1 / 10, 1 / 10, 1 / 10, 1 / 10]"
    by (simp add: demo_lib_def)
  have mx: "Max (set [1 / 10, 1 / 10, 1 / 10, 3 / 10, 1 / 10, 1 / 10, 1 / 10, 1 / 10 :: real]) = 3 / 10"
    by simp
  from C8_chart_and_confidence [OF d1 d2 d3 d4 d5 h2 h3 h4 h5 h6 h7, of "[]"]
  have "chart_frame (snd (predict_crop demo_lib [] (demo_filled ?T)))
       = [zip sorted_crop_names [1 / 10, 1 / 10, 1 / 10, 3 / 10, 1 / 10, 1 / 10, 1 / 10, 1 / 10]]
     \<and> result_label (snd (predict_crop demo_lib [] (demo_filled ?T)))
       = [CHR 0xF0, CHR 0x9F, CHR 0x8C, CHR 0xBF] @ '' Recommended Crop: '' @ ''Maize'' @ ''    ''
           @ [CHR 0xE2, CHR 0x9C, CHR 0x85] @ '' Confidence: ''
           @ fmt2f demo_lib (fmul demo_lib (3 / 10) 100) @ ''%''"
    unfolding p mx by blast
  then have "chart_frame (snd (predict_crop demo_lib [] (demo_filled ?T)))
       = [zip sorted_crop_names [1 / 10, 1 / 10, 1 / 10, 3 / 10, 1 / 10, 1 / 10, 1 / 10, 1 / 10]]
     \<and> result_label (snd (predict_crop demo_lib [] (demo_filled ?T)))
       = [CHR 0xF0, CHR 0x9F, CHR 0x8C, CHR 0xBF] @ '' Recommended Crop: Maize    ''
           @ [CHR 0xE2, CHR 0x9C, CHR 0x85] @ '' Confidence: ''
           @ fmt2f demo_lib (fmul demo_lib (3 / 10) 100) @ ''%''"
    by simp
  with d1 d2 d3 d4 d5 h3 h5 h6 show ?thesis
    by blast
qed

section \<open>Search (C9)\<close>

text \<open>
  C9. The search looks up \<^verbatim>\<open>s.capitalize().strip()\<close> of the text of the search box,
  whatever the text: when the result is a key of the knowledge table the label and the
  guide show that crop and no dialog opens, and otherwise the one dialog \<^verbatim>\<open>Not Found\<close>
  opens and nothing else changes. In particular, with the table of the source and with
  \<^verbatim>\<open>capitalize\<close> and \<^verbatim>\<open>strip\<close> doing on ASCII text what Python's do there, a crop name
  in any letter case (\<open>t\<close>), followed by any ASCII whitespace (\<open>ws'\<close>), is found under
  its name; the same text after at least one ASCII whitespace character (\<open>ws\<close>) is not
  found, since capitalizing comes first and the name is then looked up in lower case.
\<close>

theorem C9_search_capitalize_then_strip:
  "search_crop L picked s =
     (if str_strip L (str_capitalize L (search_var s)) \<in> fst ` set (base_info s)
      then s\<lparr>result_label := [CHR 0xF0, CHR 0x9F, CHR 0x8C, CHR 0xBE] @ '' Information for ''
                  @ str_strip L (str_capitalize L (search_var s)) @ '':'',
             info_text := final_text (base_info s) picked (str_strip L (str_capitalize L (search_var s)))\<rparr>
      else s\<lparr>log := log s @ [Showerror ''Not Found''
                  (''Crop '' @ [CHR 0x27] @ str_strip L (str_capitalize L (search_var s)) @ [CHR 0x27]
                     @ '' not found.'')]\<rparr>)
   \<and> ((\<forall>x. is_ascii x \<longrightarrow> str_capitalize L x = ascii_capitalize x)
        \<and> (\<forall>x. is_ascii x \<longrightarrow> str_strip L x = ascii_strip x)
        \<and> base_info s = BASE_INFO \<and> name \<in> set crop_names \<and> same_letters t name
        \<and> list_all ascii_isspace ws \<and> list_all ascii_isspace ws' \<longrightarrow>
          (search_var s = t @ ws' \<longrightarrow>
             search_crop L picked s =
               s\<lparr>result_label := [CHR 0xF0, CHR 0x9F, CHR 0x8C, CHR 0xBE] @ '' Information for '' @ name @ '':'',
                 info_text := final_text BASE_INFO picked name\<rparr>)
        \<and> (search_var s = ws @ t @ ws' \<and> ws \<noteq> [] \<longrightarrow>
             search_crop L picked s =
               s\<lparr>log := log s @ [Showerror ''Not Found''
                  (''Crop '' @ [CHR 0x27] @ map ascii_lower name @ [CHR 0x27] @ '' not found.'')]\<rparr>))"
proof (intro conjI impI; (elim conjE)?)
  show "search_crop L picked s =
     (if str_strip L (str_capitalize L (search_var s)) \<in> fst ` set (base_info s)
      then s\<lparr>result_label := [CHR 0xF0, CHR 0x9F, CHR 0x8C, CHR 0xBE] @ '' Information for ''
                  @ str_strip L (str_capitalize L (search_var s)) @ '':'',
             info_text := final_text (base_info s) picked (str_strip L (str_capitalize L (search_var s)))\<rparr>
      else s\<lparr>log := log s @ [Showerror ''Not Found''
                  (''Crop '' @ [CHR 0x27] @ str_strip L (str_capitalize L (search_var s)) @ [CHR 0x27]
                     @ '' not found.'')]\<rparr>)"
    by (rule search_crop_cases)
next
  assume cap: "\<forall>x. is_ascii x \<longrightarrow> str_capitalize L x = ascii_capitalize x"
    and strp: "\<forall>x. is_ascii x \<longrightarrow> str_strip L x = ascii_strip x"
    and bi: "base_info s = BASE_INFO" and name: "name \<in> set crop_names"
    and same: "same_letters t name" and ws': "list_all ascii_isspace ws'"
    and sv: "search_var s = t @ ws'"
  have "str_strip L (str_capitalize L (search_var s)) = name"
    unfolding sv by (rule lookup_name_trailing [OF cap strp name same ws'])
  moreover have "name \<in> fst ` set BASE_INFO"
    using name crop_names_keys by (auto simp: map_of_eq_None_iff)
  ultimately show "search_crop L picked s =
      s\<lparr>result_label := [CHR 0xF0, CHR 0x9F, CHR 0x8C, CHR 0xBE] @ '' Information for '' @ name @ '':'',
        info_text := final_text BASE_INFO picked name\<rparr>"
    by (simp add: search_crop_cases bi)
next
  assume cap: "\<forall>x. is_ascii x \<longrightarrow> str_capitalize L x = ascii_capitalize x"
    and strp: "\<forall>x. is_ascii x \<longrightarrow> str_strip L x = ascii_strip x"
    and bi: "base_info s = BASE_INFO" and name: "name \<in> set crop_names"
    and same: "same_letters t name" and ws: "list_all ascii_isspace ws"
    and ws': "list_all ascii_isspace ws'"
    and sv: "search_var s = ws @ t @ ws'" and lead: "ws \<noteq> []"
  have "str_strip L (str_capitalize L (search_var s)) = map ascii_lower name"
    unfolding sv by (rule lookup_name_leading [OF cap strp name same ws ws' lead])
  moreover have "map ascii_lower name \<notin> fst ` set BASE_INFO"
    using name crop_names_lowered by (auto simp: map_of_eq_None_iff)
  ultimately show "search_crop L picked s =
      s\<lparr>log := log s @ [Showerror ''Not Found''
         (''Crop '' @ [CHR 0x27] @ map ascii_lower name @ [CHR 0x27] @ '' not found.'')]\<rparr>"
    by (simp add: search_crop_cases bi)
qed

text \<open>
  Two instances, with a library that is the ASCII functions: \<^verbatim>\<open>rICE\<close> followed by two
  spaces is found as Rice, and \<^verbatim>\<open>rice\<close> after one space is looked up as \<^verbatim>\<open>rice\<close> and not
  found.
\<close>

theorem C9_witness:
  "str_capitalize demo_lib = ascii_capitalize \<and> str_strip demo_lib = ascii_strip
   \<and> base_info (demo_search ''rICE  '') = BASE_INFO \<and> base_info (demo_search '' rice'') = BASE_INFO
   \<and> ''Rice'' \<in> set crop_names
   \<and> same_letters ''rICE'' ''Rice'' \<and> same_letters ''rice'' ''Rice''
   \<and> list_all ascii_isspace '' '' \<and> list_all ascii_isspace ''  '' \<and> list_all ascii_isspace []
   \<and> search_var (demo_search ''rICE  '') = ''rICE'' @ ''  ''
   \<and> search_var (demo_search '' rice'') = '' '' @ ''rice'' @ []
   \<and> search_crop demo_lib [] (demo_search ''rICE  '') =
       (demo_search ''rICE  '')
         \<lparr>result_label := [CHR 0xF0, CHR 0x9F, CHR 0x8C, CHR 0xBE] @ '' Information for Rice:'',
           info_text := final_text BASE_INFO [] ''Rice''\<rparr>
   \<and> search_crop demo_lib [] (demo_search '' rice'') =
       (demo_search '' rice'')
         \<lparr>log := log (demo_search '' rice'') @
            [Showerror ''Not Found'' (''Crop '' @ [CHR 0x27] @ ''rice'' @ [CHR 0x27] @ '' not found.'')]\<rparr>"
proof -
  have c1: "str_capitalize demo_lib = ascii_capitalize" and c2: "str_strip demo_lib = ascii_strip"
    by (simp_all add: demo_lib_def)
  have k1: "\<forall>x. is_ascii x \<longrightarrow> str_capitalize demo_lib x = ascii_capitalize x"
    and k2: "\<forall>x. is_ascii x \<longrightarrow> str_strip demo_lib x = ascii_strip x"
    by (simp_all add: c1 c2)
  have b1: "base_info (demo_search ''rICE  '') = BASE_INFO"
    and b2: "base_info (demo_search '' rice'') = BASE_INFO"
    by (simp_all add: demo_search_def run_globals startup_globals)
  have n: "''Rice'' \<in> set crop_names"
    by (simp add: crop_names_def)
  have s1: "same_letters ''rICE'' ''Rice''" and s2: "same_letters ''rice'' ''Rice''"
    by code_simp+
  have w1: "list_all ascii_isspace '' ''" and w2: "list_all ascii_isspace ''  ''"
    and w0: "list_all ascii_isspace []"
    by code_simp+
  have v1: "search_var (demo_search ''rICE  '') = ''rICE'' @ ''  ''"
    and v2: "search_var (demo_search '' rice'') = '' '' @ ''rice'' @ []"
    by (simp_all add: demo_search_def run_def)
  have low: "map ascii_lower ''Rice'' = ''rice''"
    by code_simp
  from C9_search_capitalize_then_strip [of demo_lib "[]" "demo_search ''rICE  ''" "''Rice''" "''rICE''" "'' ''" "''  ''"]
    k1 k2 b1 n s1 w1 w2 v1
  have "search_crop demo_lib [] (demo_search ''rICE  '') =
       (demo_search ''rICE  '')
         \<lparr>result_label := [CHR 0xF0, CHR 0x9F, CHR 0x8C, CHR 0xBE] @ '' Information for '' @ ''Rice'' @ '':'',
           info_text := final_text BASE_INFO [] ''Rice''\<rparr>"
    by blast
  then have r1: "search_crop demo_lib [] (demo_search ''rICE  '') =
       (demo_search ''rICE  '')
         \<lparr>result_label := [CHR 0xF0, CHR 0x9F, CHR 0x8C, CHR 0xBE] @ '' Information for Rice:'',
           info_text := final_text BASE_INFO [] ''Rice''\<rparr>"
    by simp
  have "'' '' \<noteq> []"
    by simp
  with C9_search_capitalize_then_strip [of demo_lib "[]" "demo_search '' rice''" "''Rice''" "''rice''" "'' ''" "[]"]
    k1 k2 b2 n s2 w1 w0 v2
  have "search_crop demo_lib [] (demo_search '' rice'') =
       (demo_search '' rice'')
         \<lparr>log := log (demo_search '' rice'') @
            [Showerror ''Not Found'' (''Crop '' @ [CHR 0x27] @ map ascii_lower ''Rice'' @ [CHR 0x27] @ '' not found.'')]\<rparr>"
    by blast
  then have r2: "search_crop demo_lib [] (demo_search '' rice'') =
       (demo_search '' rice'')
         \<lparr>log := log (demo_search '' rice'') @
            [Showerror ''Not Found'' (''Crop '' @ [CHR 0x27] @ ''rice'' @ [CHR 0x27] @ '' not found.'')]\<rparr>"
    by (simp only: low)
  from c1 c2 b1 b2 n s1 s2 w1 w2 w0 v1 v2 r1 r2 show ?thesis
    by blast
qed

section \<open>The order of the range checks (C10)\<close>



end
